theory Spec2Isabelle
  imports Main "HOL-Library.Sublist"
begin

section \<open>Exceptions and effectful computations\<close>

text \<open>
  The Python exceptions the sources raise or let through. The argument is the message.
  \<open>OtherError\<close> stands for any exception of the environment that the sources neither
  raise nor catch by name (an \<open>OSError\<close> of a file write, a Playwright \<open>Error\<close>).
\<close>

datatype error =
    TimeoutError string
  | ValueError string
  | RuntimeError string
  | TypeError string
  | KeyError string
  | OtherError string

text \<open>
  A run of an effectful function is the list of the observable calls it made, in order,
  and how it ended: \<open>Inl e\<close> when it raised \<open>e\<close>, \<open>Inr v\<close> when it returned \<open>v\<close>.
\<close>

type_synonym ('ev, 'a) run = "'ev list \<times> (error + 'a)"

definition returns :: "'a \<Rightarrow> ('ev, 'a) run" where
  "returns v = ([], Inr v)"

definition raises :: "error \<Rightarrow> ('ev, 'a) run" where
  "raises e = ([], Inl e)"

text \<open>Sequencing: the second part runs only when the first returned.\<close>

definition and_then :: "('ev, 'a) run \<Rightarrow> ('a \<Rightarrow> ('ev, 'b) run) \<Rightarrow> ('ev, 'b) run" where
  "and_then m f =
     (case snd m of
        Inl e \<Rightarrow> (fst m, Inl e)
      | Inr v \<Rightarrow> (fst m @ fst (f v), snd (f v)))"

section \<open>The result sanitizer (scripts/clean\_array.py)\<close>

subsection \<open>Python values\<close>

text \<open>
  The values \<open>json.loads\<close> produces. A \<open>dict\<close> is an association list in insertion
  order; lookup takes the first entry of a key, storing under a present key replaces that
  entry in place, deleting a key removes its entries. Numbers are one constructor: every
  test the sanitizer makes treats \<open>int\<close> and \<open>float\<close> alike. The values are trees: two
  entries of the input never share a mutable sub-object, as in data read from JSON.
\<close>

datatype json =
    JNull
  | JBool bool
  | JNum int
  | JStr string
  | JList "json list"
  | JDict "(string \<times> json) list"

definition dict_keys :: "(string \<times> json) list \<Rightarrow> string list" where
  "dict_keys d = map fst d"

fun dict_put :: "(string \<times> json) list \<Rightarrow> string \<Rightarrow> json \<Rightarrow> (string \<times> json) list" where
  "dict_put [] k v = [(k, v)]"
| "dict_put (p # ps) k v = (if fst p = k then (k, v) # ps else p # dict_put ps k v)"

definition dict_del :: "(string \<times> json) list \<Rightarrow> string \<Rightarrow> (string \<times> json) list" where
  "dict_del d k = filter (\<lambda>p. fst p \<noteq> k) d"

text \<open>\<open>key in obj\<close> for a \<open>str\<close> key: key membership of a dict, substring test of a
  string, element membership of a list, \<open>TypeError\<close> otherwise.\<close>

fun py_contains :: "string \<Rightarrow> json \<Rightarrow> error + bool" where
  "py_contains k (JDict d) = Inr (k \<in> set (dict_keys d))"
| "py_contains k (JStr s) = Inr (sublist k s)"
| "py_contains k (JList xs) = Inr (JStr k \<in> set xs)"
| "py_contains k _ = Inl (TypeError ''argument is not iterable'')"

text \<open>\<open>obj[key]\<close> for a \<open>str\<close> key.\<close>

fun py_getitem :: "json \<Rightarrow> string \<Rightarrow> error + json" where
  "py_getitem (JDict d) k = (case map_of d k of Some v \<Rightarrow> Inr v | None \<Rightarrow> Inl (KeyError k))"
| "py_getitem (JStr s) k = Inl (TypeError ''string indices must be integers'')"
| "py_getitem (JList xs) k = Inl (TypeError ''list indices must be integers or slices'')"
| "py_getitem _ k = Inl (TypeError ''object is not subscriptable'')"

text \<open>\<open>del obj[key]\<close> for a \<open>str\<close> key; the result is the object after the deletion.\<close>

fun py_delitem :: "json \<Rightarrow> string \<Rightarrow> error + json" where
  "py_delitem (JDict d) k =
     (if k \<in> set (dict_keys d) then Inr (JDict (dict_del d k)) else Inl (KeyError k))"
| "py_delitem (JList xs) k = Inl (TypeError ''list indices must be integers or slices'')"
| "py_delitem _ k = Inl (TypeError ''object does not support item deletion'')"

text \<open>\<open>obj[:10]\<close>: strings and lists can be sliced, nothing else can (a dict raises
  \<open>TypeError\<close> up to Python 3.11 and \<open>KeyError\<close> from 3.12 on; one constructor stands for
  both here).\<close>

fun py_slice10 :: "json \<Rightarrow> error + json" where
  "py_slice10 (JStr s) = Inr (JStr (take 10 s))"
| "py_slice10 (JList xs) = Inr (JList (take 10 xs))"
| "py_slice10 _ = Inl (TypeError ''object is not subscriptable'')"

text \<open>\<open>item.get(key, default)\<close> on a dict.\<close>

definition dict_get_default :: "(string \<times> json) list \<Rightarrow> string \<Rightarrow> json \<Rightarrow> json" where
  "dict_get_default d k dflt = (case map_of d k of Some v \<Rightarrow> v | None \<Rightarrow> dflt)"

subsection \<open>\<open>clean_xsec_tokens\<close>\<close>

text \<open>What the function prints: a line per removed token, with the first ten characters
  of the object's id, and the closing line with \<open>cleaned_count\<close>.\<close>

datatype printed = Removed json | Summary nat

definition bind_err :: "error + 'a \<Rightarrow> ('a \<Rightarrow> error + 'b) \<Rightarrow> error + 'b" where
  "bind_err m f = (case m of Inl e \<Rightarrow> Inl e | Inr v \<Rightarrow> f v)"

text \<open>
  The body of the \<open>for\<close> loop on one element. It returns the element as the loop leaves
  it and, when a token was deleted, the id prefix of the printed line. The deletion
  mutates \<open>user\<close> inside \<open>item['noteCard']\<close> inside \<open>item\<close>; here the changed \<open>user\<close>
  is stored back at the places it was read from.
\<close>

definition clean_item :: "json \<Rightarrow> error + (json \<times> json option)" where
  "clean_item item =
     (case item of
        JDict d \<Rightarrow>
          if map_of d ''modelType'' = Some (JStr ''note'') then
            (case map_of d ''noteCard'' of
               None \<Rightarrow> Inr (item, None)
             | Some note_card \<Rightarrow>
                 bind_err (py_contains ''user'' note_card) (\<lambda>has_user.
                 if has_user then
                   bind_err (py_getitem note_card ''user'') (\<lambda>user.
                   bind_err (py_contains ''xsecToken'' user) (\<lambda>has_token.
                   if has_token then
                     bind_err (py_delitem user ''xsecToken'') (\<lambda>user'.
                     bind_err (py_slice10 (dict_get_default d ''id'' (JStr ''N/A''))) (\<lambda>shown.
                     (case note_card of
                        JDict nc \<Rightarrow>
                          Inr (JDict (dict_put d ''noteCard'' (JDict (dict_put nc ''user'' user'))),
                               Some shown)
                      | _ \<Rightarrow> Inr (item, Some shown))))
                   else Inr (item, None)))
                 else Inr (item, None)))
          else Inr (item, None)
      | _ \<Rightarrow> Inr (item, None))"

text \<open>The loop, with \<open>cleaned_count\<close> and the printed lines so far.\<close>

fun clean_loop :: "json list \<Rightarrow> nat \<Rightarrow> (printed, json list \<times> nat) run" where
  "clean_loop [] cleaned_count = ([], Inr ([], cleaned_count))"
| "clean_loop (item # rest) cleaned_count =
     (case clean_item item of
        Inl e \<Rightarrow> ([], Inl e)
      | Inr (item', None) \<Rightarrow>
          (case clean_loop rest cleaned_count of
             (out, Inl e) \<Rightarrow> (out, Inl e)
           | (out, Inr (rest', n)) \<Rightarrow> (out, Inr (item' # rest', n)))
      | Inr (item', Some shown) \<Rightarrow>
          (case clean_loop rest (cleaned_count + 1) of
             (out, Inl e) \<Rightarrow> (Removed shown # out, Inl e)
           | (out, Inr (rest', n)) \<Rightarrow> (Removed shown # out, Inr (item' # rest', n))))"

definition clean_xsec_tokens :: "json \<Rightarrow> (printed, json) run" where
  "clean_xsec_tokens data_array =
     (case data_array of
        JList items \<Rightarrow>
          (case clean_loop items 0 of
             (out, Inl e) \<Rightarrow> (out, Inl e)
           | (out, Inr (items', n)) \<Rightarrow> (out @ [Summary n], Inr (JList items')))
      | _ \<Rightarrow> ([], Inl (TypeError ''input must be a list'')))"

text \<open>Two runs in a row, the second on what the first returned. When the first raises
  there is no second.\<close>

definition clean_twice :: "json \<Rightarrow> (printed, json) run" where
  "clean_twice data_array = and_then (clean_xsec_tokens data_array) clean_xsec_tokens"

subsection \<open>What the sanitizer is asked to do\<close>

text \<open>An object of the note kind: a dict whose \<open>modelType\<close> is \<open>'note'\<close>.\<close>

definition is_note :: "json \<Rightarrow> bool" where
  "is_note item =
     (case item of JDict d \<Rightarrow> map_of d ''modelType'' = Some (JStr ''note'') | _ \<Rightarrow> False)"

text \<open>The top-level copy of the token, \<open>item['xsecToken']\<close>.\<close>

definition top_level_token :: "json \<Rightarrow> json option" where
  "top_level_token item = (case item of JDict d \<Rightarrow> map_of d ''xsecToken'' | _ \<Rightarrow> None)"

text \<open>The nested copy, \<open>item['noteCard']['user']['xsecToken']\<close>, when the three
  dicts are there.\<close>

definition nested_token :: "json \<Rightarrow> json option" where
  "nested_token item =
     (case item of
        JDict d \<Rightarrow>
          (case map_of d ''noteCard'' of
             Some (JDict nc) \<Rightarrow>
               (case map_of nc ''user'' of
                  Some (JDict u) \<Rightarrow> map_of u ''xsecToken''
                | _ \<Rightarrow> None)
           | _ \<Rightarrow> None)
      | _ \<Rightarrow> None)"

text \<open>The element with the nested copy deleted and everything else in place.\<close>

definition without_nested_token :: "json \<Rightarrow> json" where
  "without_nested_token item =
     (case item of
        JDict d \<Rightarrow>
          (case map_of d ''noteCard'' of
             Some (JDict nc) \<Rightarrow>
               (case map_of nc ''user'' of
                  Some (JDict u) \<Rightarrow>
                    JDict (dict_put d ''noteCard''
                      (JDict (dict_put nc ''user'' (JDict (dict_del u ''xsecToken'')))))
                | _ \<Rightarrow> item)
           | _ \<Rightarrow> item)
      | _ \<Rightarrow> item)"

definition is_dict :: "json \<Rightarrow> bool" where
  "is_dict v = (case v of JDict d \<Rightarrow> True | _ \<Rightarrow> False)"

definition is_str :: "json \<Rightarrow> bool" where
  "is_str v = (case v of JStr s \<Rightarrow> True | _ \<Rightarrow> False)"

text \<open>
  The shape of the result objects the feed pages deliver: in a note, \<open>noteCard\<close> and
  its \<open>user\<close> are dicts where present, and \<open>id\<close> is a string where present. On other
  shapes the Python tests and the \<open>[:10]\<close> of the printed line can raise.
\<close>

definition well_shaped :: "json \<Rightarrow> bool" where
  "well_shaped item =
     (case item of
        JDict d \<Rightarrow>
          (case map_of d ''noteCard'' of
             None \<Rightarrow> True
           | Some (JDict nc) \<Rightarrow> (case map_of nc ''user'' of None \<Rightarrow> True | Some u \<Rightarrow> is_dict u)
           | Some _ \<Rightarrow> False)
          \<and> (case map_of d ''id'' of None \<Rightarrow> True | Some i \<Rightarrow> is_str i)
      | _ \<Rightarrow> True)"

text \<open>The example of the script's own \<open>__main__\<close>, with ASCII nicknames.\<close>

definition example_array :: json where
  "example_array = JList
     [JDict [(''id'', JStr ''note001''), (''modelType'', JStr ''note''),
             (''xsecToken'', JStr ''top_level_token_1''),
             (''noteCard'', JDict [(''user'', JDict [(''nickName'', JStr ''user1''),
                                                      (''xsecToken'', JStr ''user_token_1'')])])],
      JDict [(''id'', JStr ''note002''), (''modelType'', JStr ''note''),
             (''xsecToken'', JStr ''top_level_token_2''),
             (''noteCard'', JDict [(''user'', JDict [(''nickName'', JStr ''user2''),
                                                      (''xsecToken'', JStr ''user_token_2'')])])],
      JDict [(''id'', JStr ''rec001''), (''modelType'', JStr ''rec_query'')]]"

definition example_cleaned :: json where
  "example_cleaned = JList
     [JDict [(''id'', JStr ''note001''), (''modelType'', JStr ''note''),
             (''xsecToken'', JStr ''top_level_token_1''),
             (''noteCard'', JDict [(''user'', JDict [(''nickName'', JStr ''user1'')])])],
      JDict [(''id'', JStr ''note002''), (''modelType'', JStr ''note''),
             (''xsecToken'', JStr ''top_level_token_2''),
             (''noteCard'', JDict [(''user'', JDict [(''nickName'', JStr ''user2'')])])],
      JDict [(''id'', JStr ''rec001''), (''modelType'', JStr ''rec_query'')]]"

text \<open>The one case in which the loop body changes an element: a note whose
  \<open>noteCard\<close> and \<open>user\<close> are dicts and whose \<open>user\<close> has the key; \<open>shown\<close> is the
  id prefix of the printed line.\<close>

definition strips :: "json \<Rightarrow> json \<Rightarrow> json \<Rightarrow> bool" where
  "strips item item' shown \<longleftrightarrow>
     (\<exists>d nc u. item = JDict d \<and> map_of d ''modelType'' = Some (JStr ''note'') \<and>
        map_of d ''noteCard'' = Some (JDict nc) \<and> map_of nc ''user'' = Some (JDict u) \<and>
        ''xsecToken'' \<in> set (dict_keys u) \<and>
        py_slice10 (dict_get_default d ''id'' (JStr ''N/A'')) = Inr shown \<and>
        item' = JDict (dict_put d ''noteCard''
                  (JDict (dict_put nc ''user'' (JDict (dict_del u ''xsecToken''))))))"

text \<open>An object that carries the duplicate: a note with the nested copy.\<close>

definition has_duplicate :: "json \<Rightarrow> bool" where
  "has_duplicate item \<longleftrightarrow> is_note item \<and> nested_token item \<noteq> None"

definition example_items :: "json list" where
  "example_items = (case example_array of JList items \<Rightarrow> items | _ \<Rightarrow> [])"

section \<open>The comment locators (xhs/comment.py)\<close>

text \<open>
  What a locator run sees of the page: how many elements a selector matches
  (\<open>locator.count()\<close>) and how \<open>locator.first.wait_for(state, timeout)\<close> ends, \<open>None\<close>
  when the state is reached in time and the exception otherwise (a \<open>TimeoutError\<close> when
  the timeout elapses). Both are fixed for the length of one run, and \<open>count()\<close> itself
  is taken to return.
\<close>

datatype wait_state = Visible | Attached

record page =
  locator_count :: "string \<Rightarrow> nat"
  locator_wait_for :: "string \<Rightarrow> wait_state \<Rightarrow> nat \<Rightarrow> error option"
  page_text :: string

datatype page_call = Count string | WaitFor string wait_state nat

text \<open>\<open>page.locator(selector).first\<close>, named by its selector.\<close>

datatype element = First string

definition apostrophe :: char where
  "apostrophe = CHR 0x27"

definition editor_selectors :: "string list" where
  "editor_selectors =
     [''div.input-box div.content-edit p.content-input'',
      ''div.input-box div.content-edit span'',
      ''textarea'',
      ''div[contenteditable='' @ [apostrophe] @ ''true'' @ [apostrophe] @ '']'']"

text \<open>The two \<open>has-text\<close> selectors hold Chinese text, given here as its UTF-8 bytes.\<close>

definition submit_candidates :: "string list" where
  "submit_candidates =
     [''div.bottom button.submit'',
      ''button:has-text('' @ [apostrophe, CHR 0xE5, CHR 0x8F, CHR 0x91, CHR 0xE9, CHR 0x80, CHR 0x81,
                               apostrophe] @ '')'',
      ''button:has-text('' @ [apostrophe, CHR 0xE8, CHR 0xAF, CHR 0x84, CHR 0xE8, CHR 0xAE, CHR 0xBA,
                               apostrophe] @ '')'']"

text \<open>Prefixing the calls made so far to the rest of a run.\<close>

definition after :: "'ev list \<Rightarrow> ('ev, 'a) run \<Rightarrow> ('ev, 'a) run" where
  "after evs m = (evs @ fst m, snd m)"

text \<open>The loop of \<open>_locate_editor\<close> with its \<open>last_error\<close>, and what follows the loop.
  Only a \<open>TimeoutError\<close> is caught; any other exception of \<open>wait_for\<close> leaves the
  function.\<close>

fun locate_editor_from :: "page \<Rightarrow> string list \<Rightarrow> error option \<Rightarrow> (page_call, element) run" where
  "locate_editor_from pg [] last_error =
     (case last_error of
        Some e \<Rightarrow> ([], Inl e)
      | None \<Rightarrow> ([], Inl (TimeoutError ''Comment editor not found'')))"
| "locate_editor_from pg (selector # rest) last_error =
     (if locator_count pg selector = 0
      then after [Count selector] (locate_editor_from pg rest last_error)
      else
        (case locator_wait_for pg selector Visible 30000 of
           None \<Rightarrow> ([Count selector, WaitFor selector Visible 30000], Inr (First selector))
         | Some (TimeoutError msg) \<Rightarrow>
             after [Count selector, WaitFor selector Visible 30000]
               (locate_editor_from pg rest (Some (TimeoutError msg)))
         | Some exc \<Rightarrow> ([Count selector, WaitFor selector Visible 30000], Inl exc)))"

definition locate_editor :: "page \<Rightarrow> (page_call, element) run" where
  "locate_editor pg = locate_editor_from pg editor_selectors None"

text \<open>The loop of \<open>_locate_submit\<close>: \<open>Inr (Some el)\<close> when the loop returns \<open>el\<close>,
  \<open>Inr None\<close> when it runs to its end.\<close>

fun locate_submit_loop :: "page \<Rightarrow> string list \<Rightarrow> (page_call, element option) run" where
  "locate_submit_loop pg [] = ([], Inr None)"
| "locate_submit_loop pg (selector # rest) =
     (if locator_count pg selector = 0
      then after [Count selector] (locate_submit_loop pg rest)
      else
        (case locator_wait_for pg selector Attached 10000 of
           None \<Rightarrow> ([Count selector, WaitFor selector Attached 10000], Inr (Some (First selector)))
         | Some (TimeoutError msg) \<Rightarrow>
             after [Count selector, WaitFor selector Attached 10000] (locate_submit_loop pg rest)
         | Some exc \<Rightarrow> ([Count selector, WaitFor selector Attached 10000], Inl exc)))"

text \<open>After the loop: the fallback \<open>button\<close>, whose \<open>wait_for\<close> is not guarded.\<close>

definition submit_fallback :: "page \<Rightarrow> (page_call, element) run" where
  "submit_fallback pg =
     (if locator_count pg ''button'' = 0
      then ([Count ''button''], Inl (TimeoutError ''Comment submit button not found''))
      else
        (case locator_wait_for pg ''button'' Attached 5000 of
           None \<Rightarrow> ([Count ''button'', WaitFor ''button'' Attached 5000], Inr (First ''button''))
         | Some exc \<Rightarrow> ([Count ''button'', WaitFor ''button'' Attached 5000], Inl exc)))"

definition locate_submit_from :: "page \<Rightarrow> string list \<Rightarrow> (page_call, element) run" where
  "locate_submit_from pg candidates =
     and_then (locate_submit_loop pg candidates)
       (\<lambda>found. case found of Some el \<Rightarrow> returns el | None \<Rightarrow> submit_fallback pg)"

definition locate_submit :: "page \<Rightarrow> (page_call, element) run" where
  "locate_submit pg = locate_submit_from pg submit_candidates"

subsection \<open>Vocabulary of the locator properties\<close>


definition timed_out :: "page \<Rightarrow> wait_state \<Rightarrow> nat \<Rightarrow> string \<Rightarrow> bool" where
  "timed_out pg st timeout selector \<longleftrightarrow>
     locator_count pg selector \<noteq> 0 \<and>
     (case locator_wait_for pg selector st timeout of Some (TimeoutError msg) \<Rightarrow> True | _ \<Rightarrow> False)"

definition passed_over :: "page \<Rightarrow> wait_state \<Rightarrow> nat \<Rightarrow> string \<Rightarrow> bool" where
  "passed_over pg st timeout selector \<longleftrightarrow>
     locator_count pg selector = 0 \<or> timed_out pg st timeout selector"

text \<open>The selectors a run waited on, and the selectors it touched at all.\<close>

fun waited_on :: "page_call list \<Rightarrow> string list" where
  "waited_on [] = []"
| "waited_on (Count s # cs) = waited_on cs"
| "waited_on (WaitFor s st t # cs) = s # waited_on cs"

fun touched :: "page_call list \<Rightarrow> string list" where
  "touched [] = []"
| "touched (Count s # cs) = s # touched cs"
| "touched (WaitFor s st t # cs) = s # touched cs"

text \<open>The errors of the waits that timed out, in list order: what \<open>last_error\<close> goes
  through.\<close>

fun timeouts_of :: "page \<Rightarrow> wait_state \<Rightarrow> nat \<Rightarrow> string list \<Rightarrow> error list" where
  "timeouts_of pg st timeout [] = []"
| "timeouts_of pg st timeout (selector # rest) =
     (if locator_count pg selector = 0 then timeouts_of pg st timeout rest
      else (case locator_wait_for pg selector st timeout of
              Some (TimeoutError msg) \<Rightarrow> TimeoutError msg # timeouts_of pg st timeout rest
            | _ \<Rightarrow> timeouts_of pg st timeout rest))"

text \<open>A page on which nothing matches, and one on which every wait times out.\<close>

definition empty_page :: page where
  "empty_page = \<lparr>locator_count = (\<lambda>s. 0), locator_wait_for = (\<lambda>s st t. None),
                  page_text = ''<html></html>''\<rparr>"

definition slow_page :: page where
  "slow_page = \<lparr>locator_count = (\<lambda>s. 1),
                 locator_wait_for = (\<lambda>s st t. Some (TimeoutError (''Timeout exceeded: '' @ s))),
                 page_text = ''<html><body><textarea></textarea></body></html>''\<rparr>"

text \<open>A page on which only the third editor selector and the second submit candidate
  come up, after an earlier candidate timed out.\<close>

definition drifted_page :: page where
  "drifted_page =
     \<lparr>locator_count = (\<lambda>s. if s = editor_selectors ! 0 \<or> s = submit_candidates ! 2 then 0 else 1),
      locator_wait_for = (\<lambda>s st t.
         if s = ''textarea'' \<or> s = submit_candidates ! 1 then None
         else Some (TimeoutError (''Timeout exceeded: '' @ s))),
      page_text = ''<html><body><textarea></textarea></body></html>''\<rparr>"

section \<open>The session wrapper and the tools (mcp\_server.py)\<close>

subsection \<open>The environment of one invocation\<close>

text \<open>
  The calls an invocation makes on the browser, the page and the file system, as they
  appear in a run. A call is listed when it is made, also when it raises.
\<close>

datatype event =
    EnterPlaywright
  | EnterBrowser "string option"
  | EnterContext string
  | TracingStart
  | NewPage
  | OnConsole
  | Mkdir string
  | PageContent
  | WriteText string string string
  | Screenshot string string
  | TracingStop string string
  | ExitContext
  | ExitBrowser
  | ExitPlaywright
  | LoginCheck nat
  | StorageState
  | SaveStorageState string string
  | PublishImage string string "string list" "string list"

text \<open>
  How each of these calls ends in the invocation at hand: \<open>None\<close> (or \<open>Inr\<close>) when it
  returns, the exception when it raises. Every call is made at most once in an
  invocation, so one outcome per call describes any invocation. All exceptions here are
  subclasses of Python's \<open>Exception\<close>.
\<close>

record env =
  profile_path :: "string \<Rightarrow> string"
  default_cookies_path :: string
  chrome_executable :: "string option \<Rightarrow> error + string option"
  resolve_path :: "string \<Rightarrow> string"
  expanduser :: "string \<Rightarrow> string"
  pw_enter :: "error option"
  launch_enter :: "error option"
  new_context_enter :: "error option"
  tracing_start :: "error option"
  new_page :: "error option"
  page_on :: "error option"
  console_messages :: "(string \<times> string) list"
  mkdir :: "error option"
  page_content :: "error + string"
  write_dom :: "error option"
  screenshot :: "error option"
  write_screenshot_error :: "error option"
  write_console_log :: "error option"
  tracing_stop :: "error option"
  new_context_exit :: "error option"
  launch_exit :: "error option"
  pw_exit :: "error option"
  login_indicator :: "nat \<Rightarrow> bool"
  checks_before_deadline :: "int \<Rightarrow> int \<Rightarrow> nat"
  storage_state :: "error + string"
  save_storage_state :: "error option"
  publish_result :: "error option"

subsection \<open>Python's control statements on runs\<close>

definition call :: "'ev \<Rightarrow> error option \<Rightarrow> ('ev, unit) run" where
  "call ev outcome = ([ev], case outcome of None \<Rightarrow> Inr () | Some e \<Rightarrow> Inl e)"

definition call_value :: "'ev \<Rightarrow> error + 'a \<Rightarrow> ('ev, 'a) run" where
  "call_value ev outcome = ([ev], outcome)"

text \<open>\<open>try: body finally: cleanup\<close>. The cleanup always runs; when it raises, its
  exception is the one that leaves the statement, whatever the body did.\<close>

definition try_finally :: "('ev, 'a) run \<Rightarrow> ('ev, unit) run \<Rightarrow> ('ev, 'a) run" where
  "try_finally body cleanup =
     (fst body @ fst cleanup,
      case snd cleanup of Inl e \<Rightarrow> Inl e | Inr u \<Rightarrow> snd body)"

text \<open>\<open>with manager: body\<close>. When entering raises, neither the body nor the exit runs;
  otherwise the exit runs on every way out of the body.\<close>

definition with_manager ::
    "('ev, unit) run \<Rightarrow> ('ev, unit) run \<Rightarrow> ('ev, 'a) run \<Rightarrow> ('ev, 'a) run" where
  "with_manager enter exit body = and_then enter (\<lambda>u. try_finally body exit)"

definition run_when :: "bool \<Rightarrow> ('ev, unit) run \<Rightarrow> ('ev, unit) run" where
  "run_when b m = (if b then m else returns ())"

subsection \<open>Defaults and argument resolution\<close>

record server_defaults =
  default_profile :: "string option"
  default_cookies :: "string option"
  default_chrome_bin :: "string option"
  default_debug_dir :: "string option"
  default_trace :: bool

definition normalize_debug_dir :: "env \<Rightarrow> string option \<Rightarrow> string option" where
  "normalize_debug_dir env v = (case v of None \<Rightarrow> None | Some d \<Rightarrow> Some (resolve_path env d))"

definition resolve_bool :: "bool option \<Rightarrow> bool \<Rightarrow> bool" where
  "resolve_bool v dflt = (case v of None \<Rightarrow> dflt | Some b \<Rightarrow> b)"

definition effective_str :: "string option \<Rightarrow> string option \<Rightarrow> string option" where
  "effective_str provided fallback = (case provided of Some p \<Rightarrow> Some p | None \<Rightarrow> fallback)"

definition resolve_invocation_args ::
    "env \<Rightarrow> server_defaults \<Rightarrow> string option \<Rightarrow> string option \<Rightarrow> string option \<Rightarrow>
     string option \<Rightarrow> bool option \<Rightarrow>
     string option \<times> string option \<times> string option \<times> string option \<times> bool" where
  "resolve_invocation_args env defaults profile cookies_path chrome_bin debug_dir trace =
     (effective_str profile (default_profile defaults),
      effective_str cookies_path (default_cookies defaults),
      effective_str chrome_bin (default_chrome_bin defaults),
      (case debug_dir of Some d \<Rightarrow> normalize_debug_dir env debug_dir
                        | None \<Rightarrow> default_debug_dir defaults),
      resolve_bool trace (default_trace defaults))"

text \<open>
  Modelled from the spec: \<open>get_cookies_path\<close> of \<open>xhs_mcp.configs\<close> is not among the
  sources. The spec gives its precedence: explicit path, then named profile, then the
  default path, without consulting the file system.
\<close>

definition get_cookies_path :: "env \<Rightarrow> string option \<Rightarrow> string option \<Rightarrow> string" where
  "get_cookies_path env cookies_path profile =
     (case cookies_path of
        Some p \<Rightarrow> p
      | None \<Rightarrow> (case profile of Some name \<Rightarrow> profile_path env name
                                | None \<Rightarrow> default_cookies_path env))"

subsection \<open>\<open>_run_with_page_sync\<close>\<close>

text \<open>\<open>str(exc)\<close>.\<close>

fun message :: "error \<Rightarrow> string" where
  "message (TimeoutError m) = m"
| "message (ValueError m) = m"
| "message (RuntimeError m) = m"
| "message (TypeError m) = m"
| "message (KeyError m) = [apostrophe] @ m @ [apostrophe]"
| "message (OtherError m) = m"

text \<open>\<open>"\\n".join(console_logs)\<close> of the lines the console collector appended.\<close>

fun join_lines :: "string list \<Rightarrow> string" where
  "join_lines [] = []"
| "join_lines [l] = l"
| "join_lines (l # l' # ls) = l @ [CHR 0x0A] @ join_lines (l' # ls)"

definition console_logs :: "env \<Rightarrow> string list" where
  "console_logs env = map (\<lambda>(ty, txt). ''['' @ ty @ ''] '' @ txt) (console_messages env)"

text \<open>The screenshot with its \<open>except Exception\<close>: a failure is written to
  \<open>screenshot-error.log\<close>; that write is not guarded.\<close>

definition take_screenshot :: "env \<Rightarrow> string \<Rightarrow> (event, unit) run" where
  "take_screenshot env dir =
     (case screenshot env of
        None \<Rightarrow> ([Screenshot dir ''page.png''], Inr ())
      | Some exc \<Rightarrow>
          after [Screenshot dir ''page.png'']
            (call (WriteText dir ''screenshot-error.log'' (message exc))
               (write_screenshot_error env)))"

text \<open>The \<open>finally\<close> block.\<close>

definition teardown :: "env \<Rightarrow> string option \<Rightarrow> bool \<Rightarrow> (event, unit) run" where
  "teardown env debug_dir trace =
     and_then
       (case debug_dir of
          None \<Rightarrow> returns ()
        | Some dir \<Rightarrow>
            and_then (call (Mkdir dir) (mkdir env)) (\<lambda>u.
            and_then (call_value PageContent (page_content env)) (\<lambda>html.
            and_then (call (WriteText dir ''dom.html'' html) (write_dom env)) (\<lambda>u.
            and_then (take_screenshot env dir) (\<lambda>u.
            call (WriteText dir ''console.log'' (join_lines (console_logs env)))
              (write_console_log env))))))
       (\<lambda>u. case debug_dir of
               Some dir \<Rightarrow> run_when trace (call (TracingStop dir ''trace.zip'') (tracing_stop env))
             | None \<Rightarrow> returns ())"

text \<open>
  Modelled from the spec: the context managers \<open>pw\<close>, \<open>launch\<close> and \<open>new_context\<close> of
  \<open>xhs_mcp.infra.browser\<close> are not among the sources. Entering one acquires the
  Playwright driver, the browser, the context seeded from the cookies file; leaving one
  releases what it acquired and suppresses no exception.
\<close>

definition pw :: "env \<Rightarrow> (event, 'a) run \<Rightarrow> (event, 'a) run" where
  "pw env body =
     with_manager (call EnterPlaywright (pw_enter env)) (call ExitPlaywright (pw_exit env)) body"

definition launch :: "env \<Rightarrow> string option \<Rightarrow> (event, 'a) run \<Rightarrow> (event, 'a) run" where
  "launch env chrome_exe body =
     with_manager (call (EnterBrowser chrome_exe) (launch_enter env))
       (call ExitBrowser (launch_exit env)) body"

definition new_context :: "env \<Rightarrow> string \<Rightarrow> (event, 'a) run \<Rightarrow> (event, 'a) run" where
  "new_context env cookies_file body =
     with_manager (call (EnterContext cookies_file) (new_context_enter env))
       (call ExitContext (new_context_exit env)) body"

text \<open>The handler gets the page, which is part of the environment here, and the cookies
  file. The tools call this function through \<open>_run_with_page\<close>, which runs it in a
  worker thread and hands on its result or its exception; the tools below call it
  directly.\<close>

definition run_with_page_sync ::
    "env \<Rightarrow> string option \<Rightarrow> string option \<Rightarrow> string option \<Rightarrow> string option \<Rightarrow> bool \<Rightarrow>
     (string \<Rightarrow> (event, 'a) run) \<Rightarrow> (event, 'a) run" where
  "run_with_page_sync env profile cookies_path chrome_bin debug_dir trace handler =
     (let cookies_file = get_cookies_path env cookies_path profile in
      and_then ([], chrome_executable env chrome_bin) (\<lambda>chrome_exe.
        pw env
          (launch env chrome_exe
            (new_context env cookies_file
              (and_then (run_when (trace \<and> debug_dir \<noteq> None) (call TracingStart (tracing_start env))) (\<lambda>u.
               and_then (call NewPage (new_page env)) (\<lambda>u.
               and_then (run_when (debug_dir \<noteq> None) (call OnConsole (page_on env))) (\<lambda>u.
               try_finally (handler cookies_file) (teardown env debug_dir trace)))))))))"

subsection \<open>\<open>publish_image\<close>\<close>

text \<open>\<open>tag.lstrip("#")\<close> on the non-empty tags.\<close>

definition normalize_tags :: "string list option \<Rightarrow> string list" where
  "normalize_tags tags =
     (case tags of
        None \<Rightarrow> []
      | Some ts \<Rightarrow> map (dropWhile (\<lambda>c. c = CHR ''#'')) (filter (\<lambda>tag. tag \<noteq> []) ts))"

definition publish_image ::
    "env \<Rightarrow> server_defaults \<Rightarrow> string \<Rightarrow> string \<Rightarrow> string list \<Rightarrow> string list option \<Rightarrow>
     string option \<Rightarrow> string option \<Rightarrow> string option \<Rightarrow> string option \<Rightarrow> bool option \<Rightarrow>
     (event, json) run" where
  "publish_image env defaults title content image_paths tags profile cookies_path chrome_bin
       debug_dir trace =
     (if image_paths = [] then raises (ValueError ''image_paths must contain at least one file'')
      else
        (case resolve_invocation_args env defaults profile cookies_path chrome_bin debug_dir trace of
           (profile_eff, cookies_eff, chrome_eff, debug_eff, trace_eff) \<Rightarrow>
             (let normalized_tags = normalize_tags tags;
                  normalized_images = map (expanduser env) image_paths
              in run_with_page_sync env profile_eff cookies_eff chrome_eff debug_eff trace_eff
                   (\<lambda>cookies.
                      and_then (call (PublishImage title content normalized_images normalized_tags)
                                  (publish_result env))
                        (\<lambda>u. returns (JDict [(''status'', JStr ''submitted'')]))))))"

subsection \<open>\<open>wait_for_login_complete\<close>\<close>

text \<open>
  Modelled from the spec: \<open>wait_for_login\<close> of \<open>xhs_mcp.xhs.login\<close> is not among the
  sources. The spec has it check the page's login indicator at a fixed interval, succeed
  at the first check that reports a login, and time out when the deadline elapses with
  no success. \<open>n\<close> is the number of checks that fit before the deadline, \<open>k\<close> the number
  of the next check.
\<close>

fun wait_for_login :: "(nat \<Rightarrow> bool) \<Rightarrow> nat \<Rightarrow> nat \<Rightarrow> (event, bool) run" where
  "wait_for_login indicator k 0 = ([], Inr False)"
| "wait_for_login indicator k (Suc n) =
     (if indicator k then ([LoginCheck k], Inr True)
      else after [LoginCheck k] (wait_for_login indicator (Suc k) n))"

text \<open>The handler of \<open>wait_for_login_complete\<close>. \<open>save_storage_state\<close> of
  \<open>xhs_mcp.infra.cookies\<close> is a call of the environment.\<close>

definition login_handler :: "env \<Rightarrow> int \<Rightarrow> int \<Rightarrow> string \<Rightarrow> (event, json) run" where
  "login_handler env timeout poll_interval cookies_file =
     and_then (wait_for_login (login_indicator env) 0
                 (checks_before_deadline env timeout poll_interval)) (\<lambda>success.
       if \<not> success then raises (RuntimeError ''Login timed out.'')
       else
         and_then (call_value StorageState (storage_state env)) (\<lambda>state.
         and_then (call (SaveStorageState cookies_file state) (save_storage_state env)) (\<lambda>u.
         returns (JDict [(''status'', JStr ''logged_in''), (''cookies_path'', JStr cookies_file)]))))"

definition wait_for_login_complete ::
    "env \<Rightarrow> server_defaults \<Rightarrow> int \<Rightarrow> int \<Rightarrow> string option \<Rightarrow> string option \<Rightarrow> string option \<Rightarrow>
     string option \<Rightarrow> bool option \<Rightarrow> (event, json) run" where
  "wait_for_login_complete env defaults timeout poll_interval profile cookies_path chrome_bin
       debug_dir trace =
     (case resolve_invocation_args env defaults profile cookies_path chrome_bin debug_dir trace of
        (profile_eff, cookies_eff, chrome_eff, debug_eff, trace_eff) \<Rightarrow>
          run_with_page_sync env profile_eff cookies_eff chrome_eff debug_eff trace_eff
            (login_handler env timeout poll_interval))"

subsection \<open>Vocabulary of the session properties\<close>

text \<open>The saves of the session state a run made: path and state.\<close>

fun saves :: "event list \<Rightarrow> (string \<times> string) list" where
  "saves [] = []"
| "saves (SaveStorageState path state # evs) = (path, state) # saves evs"
| "saves (ev # evs) = saves evs"

text \<open>Whether the login indicator reports a login at one of the checks before the
  deadline.\<close>

definition login_seen :: "env \<Rightarrow> int \<Rightarrow> int \<Rightarrow> bool" where
  "login_seen env timeout poll_interval \<longleftrightarrow>
     (\<exists>k < checks_before_deadline env timeout poll_interval. login_indicator env k)"

text \<open>The part of the wrapper inside the three managers.\<close>

definition session_body ::
    "env \<Rightarrow> string option \<Rightarrow> bool \<Rightarrow> (event, 'a) run \<Rightarrow> (event, 'a) run" where
  "session_body env debug_dir trace handled =
     and_then (run_when (trace \<and> debug_dir \<noteq> None) (call TracingStart (tracing_start env))) (\<lambda>u.
     and_then (call NewPage (new_page env)) (\<lambda>u.
     and_then (run_when (debug_dir \<noteq> None) (call OnConsole (page_on env))) (\<lambda>u.
     try_finally handled (teardown env debug_dir trace))))"

text \<open>The browser and the context are acquired: the executable is found and the three
  managers are entered.\<close>

definition acquires :: "env \<Rightarrow> string option \<Rightarrow> bool" where
  "acquires env chrome_bin \<longleftrightarrow>
     (case chrome_executable env chrome_bin of Inr exe \<Rightarrow> True | Inl e \<Rightarrow> False) \<and>
     pw_enter env = None \<and> launch_enter env = None \<and> new_context_enter env = None"

text \<open>The steps between the acquisition and the handler return.\<close>

definition page_opens :: "env \<Rightarrow> bool" where
  "page_opens env \<longleftrightarrow> tracing_start env = None \<and> new_page env = None \<and> page_on env = None"

text \<open>The steps of the \<open>finally\<close> block that no \<open>try\<close> guards return.\<close>

definition unguarded_steps_return :: "env \<Rightarrow> bool" where
  "unguarded_steps_return env \<longleftrightarrow>
     mkdir env = None \<and>
     (case page_content env of Inr html \<Rightarrow> True | Inl e \<Rightarrow> False) \<and>
     write_dom env = None \<and> write_screenshot_error env = None \<and>
     write_console_log env = None \<and> tracing_stop env = None"

text \<open>Leaving the three managers raises nothing.\<close>

definition releases_return :: "env \<Rightarrow> bool" where
  "releases_return env \<longleftrightarrow>
     new_context_exit env = None \<and> launch_exit env = None \<and> pw_exit env = None"

text \<open>The DOM text \<open>page.content()\<close> delivers, when it does.\<close>

definition dom_text :: "env \<Rightarrow> string" where
  "dom_text env = (case page_content env of Inr html \<Rightarrow> html | Inl e \<Rightarrow> [])"

text \<open>An environment in which every call returns; the login indicator turns true at the
  check number 2 of 5.\<close>

definition quiet_env :: env where
  "quiet_env =
     \<lparr>profile_path = (\<lambda>name. ''profiles/'' @ name @ ''.json''),
      default_cookies_path = ''profiles/default.json'',
      chrome_executable = (\<lambda>chrome_bin. Inr chrome_bin),
      resolve_path = (\<lambda>d. d),
      expanduser = (\<lambda>d. d),
      pw_enter = None, launch_enter = None, new_context_enter = None,
      tracing_start = None, new_page = None, page_on = None,
      console_messages = [(''log'', ''ready'')],
      mkdir = None, page_content = Inr ''<html></html>'', write_dom = None,
      screenshot = None, write_screenshot_error = None, write_console_log = None,
      tracing_stop = None,
      new_context_exit = None, launch_exit = None, pw_exit = None,
      login_indicator = (\<lambda>k. 2 \<le> k),
      checks_before_deadline = (\<lambda>timeout poll_interval. 5),
      storage_state = Inr ''{cookies}'',
      save_storage_state = None,
      publish_result = None\<rparr>"

definition no_defaults :: server_defaults where
  "no_defaults = \<lparr>default_profile = None, default_cookies = None, default_chrome_bin = None,
                   default_debug_dir = None, default_trace = False\<rparr>"

text \<open>Two more environments: one in which the session state cannot be read, and one in
  which the login never comes and the write of \<open>dom.html\<close> raises.\<close>

definition unreadable_state_env :: env where
  "unreadable_state_env = quiet_env\<lparr>storage_state := Inl (OtherError ''Target closed'')\<rparr>"

definition never_logged_in :: "nat \<Rightarrow> bool" where
  "never_logged_in k = False"

definition full_disk_env :: env where
  "full_disk_env = quiet_env\<lparr>login_indicator := never_logged_in,
                              write_dom := Some (OtherError ''No space left on device'')\<rparr>"

text \<open>A handler that raises at once.\<close>

definition failing_handler :: "string \<Rightarrow> (event, json) run" where
  "failing_handler cookies_file = raises (RuntimeError ''handler failed'')"

section \<open>Properties of the result sanitizer\<close>

lemma map_of_dict_put: "map_of (dict_put d k v) k' = (if k' = k then Some v else map_of d k')"
  by (induction d) auto

lemma keys_dict_put: "set (dict_keys (dict_put d k v)) = insert k (set (dict_keys d))"
  by (induction d) (auto simp: dict_keys_def)

lemma keys_dict_del: "set (dict_keys (dict_del d k)) = set (dict_keys d) - {k}"
  by (auto simp: dict_keys_def dict_del_def)

lemma map_of_dict_del: "map_of (dict_del d k) k' = (if k' = k then None else map_of d k')"
  by (induction d) (auto simp: dict_del_def)

lemma map_of_keys: "map_of d k = Some v \<Longrightarrow> k \<in> set (dict_keys d)"
  by (auto simp: dict_keys_def dest: map_of_SomeD intro: rev_image_eqI)

lemma py_delitem_Inr:
  "py_delitem x k = Inr y \<Longrightarrow> \<exists>u. x = JDict u \<and> k \<in> set (dict_keys u) \<and> y = JDict (dict_del u k)"
  by (cases x) (auto split: if_splits)

lemma py_getitem_Inr:
  "py_getitem x k = Inr y \<Longrightarrow> \<exists>d. x = JDict d \<and> map_of d k = Some y"
  by (cases x) (auto split: option.splits)

lemma clean_item_cases:
  assumes "clean_item item = Inr (item', p)"
  shows "(item' = item \<and> p = None) \<or> (\<exists>shown. p = Some shown \<and> strips item item' shown)"
proof (cases item)
  case (JDict d)
  show ?thesis
  proof (cases "map_of d ''modelType'' = Some (JStr ''note'')")
    case is_note: True
    show ?thesis
    proof (cases "map_of d ''noteCard''")
      case None
      with assms JDict is_note show ?thesis by (simp add: clean_item_def)
    next
      case (Some note_card)
      show ?thesis
      proof (cases "py_contains ''user'' note_card = Inr True")
        case False
        with assms JDict is_note Some show ?thesis
          by (auto simp: clean_item_def bind_err_def split: sum.splits if_splits)
      next
        case has_user: True
        from assms JDict is_note Some has_user obtain user where
          u: "py_getitem note_card ''user'' = Inr user"
          by (auto simp: clean_item_def bind_err_def split: sum.splits)
        then obtain nc where nc: "note_card = JDict nc" "map_of nc ''user'' = Some user"
          using py_getitem_Inr by blast
        show ?thesis
        proof (cases "py_contains ''xsecToken'' user = Inr True")
          case False
          with assms JDict is_note Some has_user u show ?thesis
            by (auto simp: clean_item_def bind_err_def split: sum.splits if_splits)
        next
          case has_token: True
          from assms JDict is_note Some has_user u has_token obtain user' where
            d: "py_delitem user ''xsecToken'' = Inr user'"
            by (auto simp: clean_item_def bind_err_def split: sum.splits)
          then obtain ud where ud: "user = JDict ud" "''xsecToken'' \<in> set (dict_keys ud)"
            "user' = JDict (dict_del ud ''xsecToken'')"
            using py_delitem_Inr by blast
          from assms JDict is_note Some has_user u has_token d obtain shown where
            s: "py_slice10 (dict_get_default d ''id'' (JStr ''N/A'')) = Inr shown"
            by (auto simp: clean_item_def bind_err_def split: sum.splits)
          from assms JDict is_note Some has_user u has_token d s nc
          have "item' = JDict (dict_put d ''noteCard'' (JDict (dict_put nc ''user'' user')))"
            and "p = Some shown"
            by (simp_all add: clean_item_def bind_err_def)
          with JDict is_note Some nc ud s show ?thesis
            by (auto simp: strips_def)
        qed
      qed
    qed
  next
    case False
    with assms JDict show ?thesis by (simp add: clean_item_def)
  qed
qed (use assms in \<open>simp_all add: clean_item_def\<close>)

lemma strips_again:
  assumes "strips item item' shown"
  shows "clean_item item' = Inr (item', None)"
  using assms unfolding strips_def
  by (auto simp: clean_item_def bind_err_def map_of_dict_put keys_dict_put keys_dict_del)

lemma clean_item_again:
  assumes "clean_item item = Inr (item', p)"
  shows "clean_item item' = Inr (item', None)"
  using clean_item_cases[OF assms] assms strips_again by auto

lemma clean_loop_again:
  "clean_loop items n = (out, Inr (items', m)) \<Longrightarrow> clean_loop items' k = ([], Inr (items', k))"
proof (induction items arbitrary: n out items' m k)
  case Nil
  then show ?case by simp
next
  case (Cons a items)
  then show ?case
    by (auto split: sum.splits option.splits prod.splits dest: clean_item_again)
qed


lemma clean_loop_length:
  "clean_loop items n = (out, Inr (items', m)) \<Longrightarrow> length items' = length items"
proof (induction items arbitrary: n out items' m)
  case Nil
  then show ?case by simp
next
  case (Cons a items)
  then show ?case
    by (auto split: sum.splits option.splits prod.splits)
qed

lemma clean_loop_nth:
  "clean_loop items n = (out, Inr (items', m)) \<Longrightarrow> i < length items \<Longrightarrow>
     \<exists>p. clean_item (items ! i) = Inr (items' ! i, p)"
proof (induction items arbitrary: n out items' m i)
  case Nil
  then show ?case by simp
next
  case (Cons a items)
  then show ?case
    by (cases i) (auto split: sum.splits option.splits prod.splits)
qed

lemma strips_is_note: "strips item item' shown \<Longrightarrow> is_note item"
  by (auto simp: strips_def is_note_def)

lemma strips_nested: "strips item item' shown \<Longrightarrow> nested_token item \<noteq> None"
  by (auto simp: strips_def nested_token_def dict_keys_def weak_map_of_SomeI map_of_eq_None_iff)

lemma strips_without: "strips item item' shown \<Longrightarrow> item' = without_nested_token item"
  by (auto simp: strips_def without_nested_token_def)

lemma strips_top: "strips item item' shown \<Longrightarrow> top_level_token item' = top_level_token item"
  by (auto simp: strips_def top_level_token_def map_of_dict_put)

lemma strips_removed: "strips item item' shown \<Longrightarrow> nested_token item' = None"
  by (auto simp: strips_def nested_token_def map_of_dict_put map_of_dict_del)

lemma kept_note_no_nested:
  assumes "clean_item item = Inr (item, None)" "is_note item"
  shows "nested_token item = None"
proof (rule ccontr)
  assume "nested_token item \<noteq> None"
  then obtain d nc u t where "item = JDict d" "map_of d ''noteCard'' = Some (JDict nc)"
    "map_of nc ''user'' = Some (JDict u)" "map_of u ''xsecToken'' = Some t"
    by (auto simp: nested_token_def split: json.splits option.splits)
  with assms show False
    by (auto simp: clean_item_def is_note_def bind_err_def map_of_keys
        split: sum.splits json.splits)
qed


lemma clean_item_printed:
  assumes "clean_item item = Inr (item', p)"
  shows "p \<noteq> None \<longleftrightarrow> is_note item \<and> nested_token item \<noteq> None"
proof (cases p)
  case None
  with clean_item_cases[OF assms] have "item' = item" by auto
  with assms None kept_note_no_nested show ?thesis by auto
next
  case (Some shown)
  with clean_item_cases[OF assms] have "strips item item' shown" by auto
  with Some strips_is_note strips_nested show ?thesis by blast
qed

lemma clean_loop_printed:
  "clean_loop items c = (out, Inr (items', n)) \<Longrightarrow>
     \<exists>shown. out = map Removed shown \<and> n = c + length shown \<and>
       length shown = length (filter has_duplicate items)"
proof (induction items arbitrary: c out items' n)
  case Nil
  then show ?case by simp
next
  case (Cons a items)
  from Cons.prems obtain a' p where a: "clean_item a = Inr (a', p)"
    by (auto split: sum.splits)
  show ?case
  proof (cases p)
    case None
    with a Cons.prems obtain rest' where r: "clean_loop items c = (out, Inr (rest', n))"
      by (auto split: sum.splits prod.splits)
    from clean_item_printed[OF a] None have "\<not> has_duplicate a"
      by (simp add: has_duplicate_def)
    with Cons.IH[OF r] show ?thesis by auto
  next
    case (Some s)
    with a Cons.prems obtain out' rest' where
      r: "clean_loop items (c + 1) = (out', Inr (rest', n))" and o: "out = Removed s # out'"
      by (auto split: sum.splits prod.splits)
    from clean_item_printed[OF a] Some have d: "has_duplicate a"
      by (simp add: has_duplicate_def)
    from Cons.IH[OF r] obtain shown where
      "out' = map Removed shown" "n = c + 1 + length shown"
      "length shown = length (filter has_duplicate items)" by auto
    with o d show ?thesis
      by (intro exI[of _ "s # shown"]) simp
  qed
qed

lemma well_shaped_clean_item:
  assumes "well_shaped item"
  shows "\<exists>r. clean_item item = Inr r"
proof (cases item)
  case (JDict d)
  show ?thesis
  proof (cases "map_of d ''noteCard''")
    case None
    with JDict show ?thesis by (simp add: clean_item_def)
  next
    case (Some note_card)
    with assms JDict obtain nc where nc: "note_card = JDict nc"
      by (auto simp: well_shaped_def split: json.splits)
    from assms JDict obtain shown where
      sh: "py_slice10 (dict_get_default d ''id'' (JStr ''N/A'')) = Inr shown"
      by (cases "map_of d ''id''")
         (auto simp: well_shaped_def dict_get_default_def is_str_def split: json.splits)
    show ?thesis
    proof (cases "map_of nc ''user''")
      case None
      then have "''user'' \<notin> set (dict_keys nc)"
        by (simp add: dict_keys_def map_of_eq_None_iff)
      with JDict Some nc show ?thesis by (simp add: clean_item_def bind_err_def)
    next
      case (Some user)
      with assms JDict \<open>map_of d ''noteCard'' = Some note_card\<close> nc
      obtain u where u: "user = JDict u"
        by (auto simp: well_shaped_def is_dict_def split: json.splits)
      from Some have "''user'' \<in> set (dict_keys nc)" by (rule map_of_keys)
      with JDict \<open>map_of d ''noteCard'' = Some note_card\<close> nc Some u sh show ?thesis
        by (simp add: clean_item_def bind_err_def)
    qed
  qed
qed (simp_all add: clean_item_def)

lemma well_shaped_clean_loop:
  "list_all well_shaped items \<Longrightarrow> \<exists>out r. clean_loop items c = (out, Inr r)"
proof (induction items arbitrary: c)
  case Nil
  then show ?case by simp
next
  case (Cons a items)
  then obtain a' p where a: "clean_item a = Inr (a', p)"
    using well_shaped_clean_item by fastforce
  from Cons have "\<And>c. \<exists>out r. clean_loop items c = (out, Inr r)" by simp
  then obtain f g where "\<And>c. clean_loop items c = (f c, Inr (g c))" by metis
  with a show ?case
    by (cases p; cases "g c"; cases "g (c + 1)") auto
qed

lemma example_run:
  "clean_xsec_tokens example_array =
     ([Removed (JStr ''note001''), Removed (JStr ''note002''), Summary 2], Inr example_cleaned)"
  by (simp add: clean_xsec_tokens_def example_array_def example_cleaned_def clean_item_def
      bind_err_def dict_keys_def dict_del_def dict_get_default_def)


lemma clean_xsec_tokens_Inr:
  assumes "clean_xsec_tokens (JList items) = (out, Inr result)"
  obtains items' out' n where "clean_loop items 0 = (out', Inr (items', n))"
    "result = JList items'" "out = out' @ [Summary n]"
  using assms
  by (auto simp: clean_xsec_tokens_def split: prod.splits sum.splits)

lemma clean_item_effect:
  assumes "clean_item item = Inr (item', p)"
  shows "(if has_duplicate item
          then item' = without_nested_token item \<and> nested_token item' = None
          else item' = item) \<and>
         top_level_token item' = top_level_token item"
proof (cases p)
  case None
  with clean_item_cases[OF assms] have "item' = item" by auto
  moreover from clean_item_printed[OF assms] None have "\<not> has_duplicate item"
    by (simp add: has_duplicate_def)
  ultimately show ?thesis by simp
next
  case (Some shown)
  with clean_item_cases[OF assms] have st: "strips item item' shown" by auto
  from clean_item_printed[OF assms] Some have "has_duplicate item"
    by (simp add: has_duplicate_def)
  with st strips_without strips_removed strips_top show ?thesis by auto
qed

text \<open>
  Claim C8, as the code has it. On a list of well-shaped result objects the sanitizer
  returns. Whenever it returns, it returns the list itself, of the same length: an entry
  that is a note with the nested token \<open>noteCard.user.xsecToken\<close> comes back with that
  token deleted and nothing else changed; every other entry, so every object of another
  kind, comes back unchanged; the top-level token of every entry is what it was. The
  number of tokens removed is the number of such notes; it is printed in the closing
  line and is not the returned value.
\<close>

theorem clean_xsec_tokens_cleans_notes_only:
  "(list_all well_shaped items \<longrightarrow>
      (\<exists>out items'. clean_xsec_tokens (JList items) = (out, Inr (JList items')))) \<and>
   (\<forall>out result. clean_xsec_tokens (JList items) = (out, Inr result) \<longrightarrow>
      (\<exists>items' shown.
         result = JList items' \<and> length items' = length items \<and>
         out = map Removed shown @ [Summary (length shown)] \<and>
         length shown = length (filter has_duplicate items) \<and>
         (\<forall>i < length items.
            (if has_duplicate (items ! i)
             then items' ! i = without_nested_token (items ! i) \<and> nested_token (items' ! i) = None
             else items' ! i = items ! i) \<and>
            top_level_token (items' ! i) = top_level_token (items ! i))))"
proof (intro conjI impI allI)
  assume "list_all well_shaped items"
  then obtain out r where "clean_loop items 0 = (out, Inr r)"
    using well_shaped_clean_loop by blast
  then show "\<exists>out items'. clean_xsec_tokens (JList items) = (out, Inr (JList items'))"
    by (cases r) (simp add: clean_xsec_tokens_def)
next
  fix out result
  assume run: "clean_xsec_tokens (JList items) = (out, Inr result)"
  then obtain items' out' n where loop: "clean_loop items 0 = (out', Inr (items', n))"
    and res: "result = JList items'" and out: "out = out' @ [Summary n]"
    by (rule clean_xsec_tokens_Inr)
  from clean_loop_printed[OF loop] obtain shown where
    sh: "out' = map Removed shown" "n = length shown"
      "length shown = length (filter has_duplicate items)" by auto
  have "\<forall>i < length items.
            (if has_duplicate (items ! i)
             then items' ! i = without_nested_token (items ! i) \<and> nested_token (items' ! i) = None
             else items' ! i = items ! i) \<and>
            top_level_token (items' ! i) = top_level_token (items ! i)"
  proof (intro allI impI)
    fix i assume "i < length items"
    with clean_loop_nth[OF loop] obtain p where
      "clean_item (items ! i) = Inr (items' ! i, p)" by blast
    then show "(if has_duplicate (items ! i)
             then items' ! i = without_nested_token (items ! i) \<and> nested_token (items' ! i) = None
             else items' ! i = items ! i) \<and>
            top_level_token (items' ! i) = top_level_token (items ! i)"
      by (rule clean_item_effect)
  qed
  with res out sh clean_loop_length[OF loop]
  show "\<exists>items' shown.
         result = JList items' \<and> length items' = length items \<and>
         out = map Removed shown @ [Summary (length shown)] \<and>
         length shown = length (filter has_duplicate items) \<and>
         (\<forall>i < length items.
            (if has_duplicate (items ! i)
             then items' ! i = without_nested_token (items ! i) \<and> nested_token (items' ! i) = None
             else items' ! i = items ! i) \<and>
            top_level_token (items' ! i) = top_level_token (items ! i))"
    by blast
qed

lemma example_items_shaped: "list_all well_shaped example_items"
  by (simp add: example_items_def example_array_def well_shaped_def is_dict_def is_str_def)

lemma example_duplicates:
  "has_duplicate (example_items ! 0)" "has_duplicate (example_items ! 1)"
  "\<not> has_duplicate (example_items ! 2)" "length example_items = 3"
  by (simp_all add: example_items_def example_array_def has_duplicate_def is_note_def
      nested_token_def)

text \<open>C8 on the script's own example: the three objects are well shaped, the first note
  loses the nested token and keeps its top-level one, the \<open>rec_query\<close> object is as it
  was.\<close>

theorem clean_xsec_tokens_cleans_notes_only_witness:
  "list_all well_shaped example_items \<and>
   (\<exists>out items'. clean_xsec_tokens (JList example_items) = (out, Inr (JList items')) \<and>
      length items' = 3 \<and>
      items' ! 0 = without_nested_token (example_items ! 0) \<and>
      nested_token (items' ! 0) = None \<and>
      top_level_token (items' ! 0) = Some (JStr ''top_level_token_1'') \<and>
      items' ! 2 = example_items ! 2)"
proof -
  note main = clean_xsec_tokens_cleans_notes_only[of example_items]
  from main example_items_shaped obtain out items' where
    run: "clean_xsec_tokens (JList example_items) = (out, Inr (JList items'))" by blast
  with main obtain items'' shown where
    props: "JList items' = JList items''" "length items'' = length example_items"
      "\<forall>i < length example_items.
            (if has_duplicate (example_items ! i)
             then items'' ! i = without_nested_token (example_items ! i) \<and>
                  nested_token (items'' ! i) = None
             else items'' ! i = example_items ! i) \<and>
            top_level_token (items'' ! i) = top_level_token (example_items ! i)"
    by blast
  then have eq: "items'' = items'" by simp
  have "0 < length example_items" "2 < length example_items"
    by (simp_all add: example_duplicates(4))
  with props(3) have
    "(if has_duplicate (example_items ! 0)
      then items'' ! 0 = without_nested_token (example_items ! 0) \<and>
           nested_token (items'' ! 0) = None
      else items'' ! 0 = example_items ! 0) \<and>
     top_level_token (items'' ! 0) = top_level_token (example_items ! 0)"
    "(if has_duplicate (example_items ! 2)
      then items'' ! 2 = without_nested_token (example_items ! 2) \<and>
           nested_token (items'' ! 2) = None
      else items'' ! 2 = example_items ! 2) \<and>
     top_level_token (items'' ! 2) = top_level_token (example_items ! 2)"
    by blast+
  with example_duplicates have
    "items'' ! 0 = without_nested_token (example_items ! 0)"
    "nested_token (items'' ! 0) = None"
    "top_level_token (items'' ! 0) = top_level_token (example_items ! 0)"
    "items'' ! 2 = example_items ! 2"
    by metis+
  moreover have "top_level_token (example_items ! 0) = Some (JStr ''top_level_token_1'')"
    by (simp add: example_items_def example_array_def top_level_token_def)
  ultimately show ?thesis
    using run eq props(2) example_duplicates(4) example_items_shaped by auto
qed

text \<open>C8 as worded has the sanitizer return the count of tokens removed. On the example
  it returns the cleaned list; the count 2 appears in the printed closing line only.\<close>

theorem clean_xsec_tokens_returns_list_counterexample:
  "snd (clean_xsec_tokens example_array) = Inr example_cleaned \<and>
   snd (clean_xsec_tokens example_array) \<noteq> Inr (JNum 2) \<and>
   fst (clean_xsec_tokens example_array) =
     [Removed (JStr ''note001''), Removed (JStr ''note002''), Summary 2]"
  by (simp add: example_run example_cleaned_def)

text \<open>
  Claim C9: the sanitizer is idempotent. For every input, running it on what a first run
  returned ends as the first run did: the second run returns the same list, and when the
  first run raises, that exception is the outcome of both.
\<close>

theorem clean_xsec_tokens_idempotent:
  "snd (clean_twice data_array) = snd (clean_xsec_tokens data_array)"
proof (cases data_array)
  case (JList items)
  show ?thesis
  proof (cases "clean_loop items 0")
    case (Pair out r)
    show ?thesis
    proof (cases r)
      case (Inl e)
      with JList Pair show ?thesis
        by (simp add: clean_twice_def and_then_def clean_xsec_tokens_def)
    next
      case (Inr v)
      then obtain items' n where v: "v = (items', n)" by (cases v)
      with Pair Inr have "clean_loop items' 0 = ([], Inr (items', 0))"
        using clean_loop_again by blast
      with JList Pair Inr v show ?thesis
        by (simp add: clean_twice_def and_then_def clean_xsec_tokens_def)
    qed
  qed
qed (simp_all add: clean_twice_def and_then_def clean_xsec_tokens_def)

text \<open>C9 on the example: the second run returns the cleaned list again.\<close>

theorem clean_xsec_tokens_idempotent_witness:
  "snd (clean_twice example_array) = Inr example_cleaned \<and>
   snd (clean_xsec_tokens example_cleaned) = Inr example_cleaned"
proof -
  have once: "snd (clean_xsec_tokens example_array) = Inr example_cleaned"
    by (simp add: example_run)
  with clean_xsec_tokens_idempotent[of example_array]
  have twice: "snd (clean_twice example_array) = Inr example_cleaned" by simp
  then have "snd (clean_xsec_tokens example_cleaned) = Inr example_cleaned"
    by (simp add: clean_twice_def and_then_def example_run)
  with twice show ?thesis by simp
qed

section \<open>Properties of the comment locators\<close>

lemma fst_after: "fst (after evs m) = evs @ fst m"
  by (simp add: after_def)

lemma snd_after: "snd (after evs m) = snd m"
  by (simp add: after_def)

lemma timed_out_wait:
  "timed_out pg st t c \<Longrightarrow> \<exists>msg. locator_wait_for pg c st t = Some (TimeoutError msg)"
  by (auto simp: timed_out_def split: option.splits error.splits)











lemma waited_on_append: "waited_on (xs @ ys) = waited_on xs @ waited_on ys"
  by (induction xs rule: waited_on.induct) auto

lemma touched_append: "touched (xs @ ys) = touched xs @ touched ys"
  by (induction xs rule: touched.induct) auto

lemma editor_waits_present:
  "s \<in> set (waited_on (fst (locate_editor_from pg cs last_error))) \<Longrightarrow> locator_count pg s \<noteq> 0"
proof (induction cs arbitrary: last_error)
  case Nil
  then show ?case by (simp split: option.splits)
next
  case (Cons c cs)
  then show ?case
    by (auto simp: fst_after waited_on_append split: if_splits option.splits error.splits)
qed

lemma submit_loop_waits_present:
  "s \<in> set (waited_on (fst (locate_submit_loop pg cs))) \<Longrightarrow> locator_count pg s \<noteq> 0"
proof (induction cs)
  case Nil
  then show ?case by simp
next
  case (Cons c cs)
  then show ?case
    by (auto simp: fst_after waited_on_append split: if_splits option.splits error.splits)
qed

lemma fallback_waits_present:
  "s \<in> set (waited_on (fst (submit_fallback pg))) \<Longrightarrow> locator_count pg s \<noteq> 0"
  by (auto simp: submit_fallback_def split: if_splits option.splits)

lemma submit_waits_present:
  assumes "s \<in> set (waited_on (fst (locate_submit_from pg cs)))"
  shows "locator_count pg s \<noteq> 0"
proof (cases "snd (locate_submit_loop pg cs)")
  case (Inl e)
  with assms submit_loop_waits_present show ?thesis
    by (simp add: locate_submit_from_def and_then_def)
next
  case (Inr found)
  with assms have "s \<in> set (waited_on (fst (locate_submit_loop pg cs))) \<or>
      s \<in> set (waited_on (fst (submit_fallback pg)))"
    by (cases found) (auto simp: locate_submit_from_def and_then_def returns_def waited_on_append)
  with submit_loop_waits_present fallback_waits_present show ?thesis by blast
qed

text \<open>
  Claim C5: for every candidate list, every timed wait of a locator run is on a selector
  that matches at least one element; a candidate that matches none is passed without a
  wait. This holds for the fallback of \<open>_locate_submit\<close> as well.
\<close>

theorem locate_waits_only_on_present:
  "(\<forall>s \<in> set (waited_on (fst (locate_editor_from pg candidates None))). locator_count pg s \<noteq> 0) \<and>
   (\<forall>s \<in> set (waited_on (fst (locate_submit_from pg candidates))). locator_count pg s \<noteq> 0) \<and>
   (\<forall>c. locator_count pg c = 0 \<longrightarrow>
          c \<notin> set (waited_on (fst (locate_editor_from pg candidates None))) \<and>
          c \<notin> set (waited_on (fst (locate_submit_from pg candidates))))"
  using editor_waits_present submit_waits_present by blast

lemma drifted_editor_calls:
  "fst (locate_editor drifted_page) =
     [Count (editor_selectors ! 0),
      Count (editor_selectors ! 1), WaitFor (editor_selectors ! 1) Visible 30000,
      Count ''textarea'', WaitFor ''textarea'' Visible 30000]"
  by (simp add: locate_editor_def editor_selectors_def drifted_page_def after_def
      submit_candidates_def apostrophe_def)

text \<open>C5 on the same page: the first editor selector matches nothing and is not waited
  on; the two waits are on selectors that match.\<close>

theorem locate_waits_only_on_present_witness:
  "locator_count drifted_page (editor_selectors ! 0) = 0 \<and>
   editor_selectors ! 0 \<notin> set (waited_on (fst (locate_editor drifted_page))) \<and>
   waited_on (fst (locate_editor drifted_page)) = [editor_selectors ! 1, ''textarea''] \<and>
   locator_count drifted_page ''textarea'' \<noteq> 0"
proof -
  have zero: "locator_count drifted_page (editor_selectors ! 0) = 0"
    by (simp add: drifted_page_def)
  have "''textarea'' \<in> set (waited_on (fst (locate_editor_from drifted_page editor_selectors None)))"
    using drifted_editor_calls by (simp add: locate_editor_def)
  with zero locate_waits_only_on_present[of drifted_page editor_selectors]
  have "editor_selectors ! 0 \<notin> set (waited_on (fst (locate_editor drifted_page)))"
    "locator_count drifted_page ''textarea'' \<noteq> 0"
    unfolding locate_editor_def by blast+
  with zero drifted_editor_calls show ?thesis by simp
qed

lemma submit_loop_exhausted:
  "\<forall>c \<in> set cs. passed_over pg Attached 10000 c \<Longrightarrow>
     snd (locate_submit_loop pg cs) = Inr None \<and>
     set (touched (fst (locate_submit_loop pg cs))) = set cs"
proof (induction cs)
  case Nil
  then show ?case by simp
next
  case (Cons c cs)
  then have po: "passed_over pg Attached 10000 c" and
    ih: "snd (locate_submit_loop pg cs) = Inr None"
        "set (touched (fst (locate_submit_loop pg cs))) = set cs"
    by simp_all
  show ?case
  proof (cases "locator_count pg c = 0")
    case True
    with ih show ?thesis by (simp add: fst_after snd_after)
  next
    case False
    with po have "timed_out pg Attached 10000 c" by (simp add: passed_over_def)
    then obtain msg where "locator_wait_for pg c Attached 10000 = Some (TimeoutError msg)"
      using timed_out_wait by blast
    with False ih show ?thesis by (simp add: fst_after snd_after)
  qed
qed

lemma editor_exhausted_touched:
  "\<forall>c \<in> set cs. passed_over pg Visible 30000 c \<Longrightarrow>
     set (touched (fst (locate_editor_from pg cs last_error))) = set cs"
proof (induction cs arbitrary: last_error)
  case Nil
  then show ?case by (simp split: option.splits)
next
  case (Cons c cs)
  then have po: "passed_over pg Visible 30000 c" and
    ih: "\<And>le. set (touched (fst (locate_editor_from pg cs le))) = set cs"
    by simp_all
  show ?case
  proof (cases "locator_count pg c = 0")
    case True
    with ih show ?thesis by (simp add: fst_after)
  next
    case False
    with po have "timed_out pg Visible 30000 c" by (simp add: passed_over_def)
    then obtain msg where "locator_wait_for pg c Visible 30000 = Some (TimeoutError msg)"
      using timed_out_wait by blast
    with False ih show ?thesis by (simp add: fst_after)
  qed
qed

lemma timeouts_of_are_timeouts:
  "e \<in> set (timeouts_of pg st t cs) \<Longrightarrow> \<exists>msg. e = TimeoutError msg"
  by (induction cs) (auto split: if_splits option.splits error.splits)

lemma editor_exhausted_error:
  "\<forall>c \<in> set cs. passed_over pg Visible 30000 c \<Longrightarrow>
     snd (locate_editor_from pg cs last_error) =
       Inl (if timeouts_of pg Visible 30000 cs = []
            then (case last_error of None \<Rightarrow> TimeoutError ''Comment editor not found''
                                   | Some e \<Rightarrow> e)
            else last (timeouts_of pg Visible 30000 cs))"
proof (induction cs arbitrary: last_error)
  case Nil
  then show ?case by (simp split: option.splits)
next
  case (Cons c cs)
  then have po: "passed_over pg Visible 30000 c" and
    rest: "\<forall>c \<in> set cs. passed_over pg Visible 30000 c"
    by simp_all
  note ih = Cons.IH[OF rest]
  show ?case
  proof (cases "locator_count pg c = 0")
    case True
    with ih[of last_error] show ?thesis by (simp add: snd_after)
  next
    case False
    with po have "timed_out pg Visible 30000 c" by (simp add: passed_over_def)
    then obtain msg where "locator_wait_for pg c Visible 30000 = Some (TimeoutError msg)"
      using timed_out_wait by blast
    with False ih[of "Some (TimeoutError msg)"] show ?thesis by (simp add: snd_after)
  qed
qed

lemma editor_ignores_page_text:
  "locate_editor_from (pg\<lparr>page_text := t\<rparr>) cs last_error = locate_editor_from pg cs last_error"
  by (induction cs arbitrary: last_error) (simp_all split: option.splits error.splits)

lemma fallback_calls:
  "hd (fst (submit_fallback pg)) = Count ''button'' \<and>
   set (touched (fst (submit_fallback pg))) = {''button''}"
  by (simp add: submit_fallback_def split: option.splits)

text \<open>
  Claim C6, as the code has it. When every candidate of its list is exhausted,
  \<open>_locate_submit\<close> goes on to one final generic selector, \<open>button\<close>, and ends as that
  fallback ends. \<open>_locate_editor\<close> has no fallback: when every candidate of its list is
  exhausted it has touched the selectors of the list and no other, and it raises.
\<close>

theorem exhausted_candidates_fallback:
  "((\<forall>c \<in> set candidates. passed_over pg Attached 10000 c) \<longrightarrow>
      (\<exists>calls. fst (locate_submit_from pg candidates) = calls @ fst (submit_fallback pg) \<and>
               set (touched calls) = set candidates \<and>
               snd (locate_submit_from pg candidates) = snd (submit_fallback pg))) \<and>
   hd (fst (submit_fallback pg)) = Count ''button'' \<and>
   set (touched (fst (submit_fallback pg))) = {''button''} \<and>
   ((\<forall>c \<in> set candidates. passed_over pg Visible 30000 c) \<longrightarrow>
      set (touched (fst (locate_editor_from pg candidates None))) = set candidates \<and>
      (\<exists>e. snd (locate_editor_from pg candidates None) = Inl e))"
proof (intro conjI impI)
  assume "\<forall>c \<in> set candidates. passed_over pg Attached 10000 c"
  from submit_loop_exhausted[OF this]
  have "fst (locate_submit_from pg candidates)
          = fst (locate_submit_loop pg candidates) @ fst (submit_fallback pg)"
    "set (touched (fst (locate_submit_loop pg candidates))) = set candidates"
    "snd (locate_submit_from pg candidates) = snd (submit_fallback pg)"
    by (simp_all add: locate_submit_from_def and_then_def)
  then show "\<exists>calls. fst (locate_submit_from pg candidates) = calls @ fst (submit_fallback pg) \<and>
               set (touched calls) = set candidates \<and>
               snd (locate_submit_from pg candidates) = snd (submit_fallback pg)"
    by blast
next
  assume "\<forall>c \<in> set candidates. passed_over pg Visible 30000 c"
  then show "set (touched (fst (locate_editor_from pg candidates None))) = set candidates"
    by (rule editor_exhausted_touched)
next
  assume "\<forall>c \<in> set candidates. passed_over pg Visible 30000 c"
  from editor_exhausted_error[OF this]
  show "\<exists>e. snd (locate_editor_from pg candidates None) = Inl e" by blast
qed (simp_all add: fallback_calls)

lemma empty_page_passes:
  "\<forall>c \<in> set cs. passed_over empty_page st t c"
  by (simp add: passed_over_def empty_page_def)

lemma empty_page_editor:
  "locate_editor_from empty_page cs None =
     (map Count cs, Inl (TimeoutError ''Comment editor not found''))"
  by (induction cs) (simp_all add: empty_page_def after_def)

lemma empty_page_submit:
  "locate_submit_loop empty_page cs = (map Count cs, Inr None)"
  by (induction cs) (simp_all add: empty_page_def after_def)

text \<open>C6 as amended, on a page where nothing matches.\<close>

theorem exhausted_candidates_fallback_witness:
  "list_all (passed_over empty_page Attached 10000) submit_candidates \<and>
   list_all (passed_over empty_page Visible 30000) editor_selectors \<and>
   fst (locate_submit empty_page) = map Count submit_candidates @ [Count ''button''] \<and>
   snd (locate_submit empty_page) = Inl (TimeoutError ''Comment submit button not found'') \<and>
   set (touched (fst (locate_editor empty_page))) = set editor_selectors"
proof -
  have fb: "submit_fallback empty_page =
        ([Count ''button''], Inl (TimeoutError ''Comment submit button not found''))"
    by (simp add: submit_fallback_def empty_page_def)
  have ps: "\<forall>c \<in> set submit_candidates. passed_over empty_page Attached 10000 c"
    by (rule empty_page_passes)
  have pe: "\<forall>c \<in> set editor_selectors. passed_over empty_page Visible 30000 c"
    by (rule empty_page_passes)
  note sub = exhausted_candidates_fallback[of submit_candidates empty_page, THEN conjunct1,
      THEN mp, OF ps]
  note edi = exhausted_candidates_fallback[of editor_selectors empty_page, THEN conjunct2,
      THEN conjunct2, THEN conjunct2, THEN mp, OF pe]
  from sub have s1: "snd (locate_submit_from empty_page submit_candidates)
      = snd (submit_fallback empty_page)"
    by (elim exE conjE)
  from edi have e1: "set (touched (fst (locate_editor_from empty_page editor_selectors None)))
          = set editor_selectors"
    by (rule conjunct1)
  have f1: "fst (locate_submit_from empty_page submit_candidates)
          = map Count submit_candidates @ [Count ''button'']"
    by (simp add: locate_submit_from_def and_then_def empty_page_submit fb)
  from s1 fb have s2: "snd (locate_submit empty_page)
      = Inl (TimeoutError ''Comment submit button not found'')"
    by (simp add: locate_submit_def)
  from f1 have f2: "fst (locate_submit empty_page)
      = map Count submit_candidates @ [Count ''button'']"
    by (simp add: locate_submit_def)
  from e1 have e2: "set (touched (fst (locate_editor empty_page))) = set editor_selectors"
    by (simp add: locate_editor_def)
  from ps pe f2 s2 e2 show ?thesis by (simp add: list_all_iff)
qed

text \<open>C6 as worded asks a final fallback of every locator. On a page where nothing
  matches, \<open>_locate_editor\<close> counts its four selectors, one call each, and raises.\<close>

theorem editor_has_no_fallback_counterexample:
  "fst (locate_editor empty_page) = map Count editor_selectors \<and>
   snd (locate_editor empty_page) = Inl (TimeoutError ''Comment editor not found'') \<and>
   length (fst (locate_editor empty_page)) = length editor_selectors"
  by (simp add: locate_editor_def empty_page_editor)

text \<open>
  Claim C7, as the code has it. When every candidate is exhausted, \<open>_locate_editor\<close>
  raises a \<open>TimeoutError\<close>: that of the last wait that timed out, or, when no candidate
  matched an element, one with the message \<open>Comment editor not found\<close>. The run does
  not depend on the page's document text, which the error does not carry.
\<close>

theorem editor_exhausted_raises_timeout:
  "((\<forall>c \<in> set candidates. passed_over pg Visible 30000 c) \<longrightarrow>
      snd (locate_editor_from pg candidates None) =
        Inl (if timeouts_of pg Visible 30000 candidates = []
             then TimeoutError ''Comment editor not found''
             else last (timeouts_of pg Visible 30000 candidates)) \<and>
      (\<exists>msg. snd (locate_editor_from pg candidates None) = Inl (TimeoutError msg))) \<and>
   locate_editor_from (pg\<lparr>page_text := text\<rparr>) candidates None
     = locate_editor_from pg candidates None"
proof (intro conjI impI)
  assume ex: "\<forall>c \<in> set candidates. passed_over pg Visible 30000 c"
  from editor_exhausted_error[OF ex, of None]
  show r: "snd (locate_editor_from pg candidates None) =
        Inl (if timeouts_of pg Visible 30000 candidates = []
             then TimeoutError ''Comment editor not found''
             else last (timeouts_of pg Visible 30000 candidates))"
    by simp
  show "\<exists>msg. snd (locate_editor_from pg candidates None) = Inl (TimeoutError msg)"
  proof (cases "timeouts_of pg Visible 30000 candidates = []")
    case True
    with r show ?thesis by simp
  next
    case False
    then have "last (timeouts_of pg Visible 30000 candidates)
                 \<in> set (timeouts_of pg Visible 30000 candidates)" by simp
    then obtain msg where "last (timeouts_of pg Visible 30000 candidates) = TimeoutError msg"
      using timeouts_of_are_timeouts by blast
    with r False show ?thesis by simp
  qed
qed (rule editor_ignores_page_text)

lemma slow_page_passes:
  "\<forall>c \<in> set cs. passed_over slow_page st t c"
  by (simp add: passed_over_def timed_out_def slow_page_def)

lemma slow_page_timeouts:
  "timeouts_of slow_page Visible 30000 editor_selectors =
     map (\<lambda>s. TimeoutError (''Timeout exceeded: '' @ s)) editor_selectors"
  by (simp add: slow_page_def editor_selectors_def)

text \<open>C7 as amended, on a page where every wait times out: the error is that of the
  last selector.\<close>

theorem editor_exhausted_raises_timeout_witness:
  "list_all (passed_over slow_page Visible 30000) editor_selectors \<and>
   snd (locate_editor slow_page) =
     Inl (TimeoutError (''Timeout exceeded: '' @ editor_selectors ! 3))"
proof -
  have ps: "\<forall>c \<in> set editor_selectors. passed_over slow_page Visible 30000 c"
    by (rule slow_page_passes)
  note main = editor_exhausted_raises_timeout[of editor_selectors slow_page, THEN conjunct1,
      THEN mp, OF ps, THEN conjunct1]
  have l: "last (map (\<lambda>s. TimeoutError (''Timeout exceeded: '' @ s)) editor_selectors)
        = TimeoutError (''Timeout exceeded: '' @ editor_selectors ! 3)"
    by (simp add: editor_selectors_def)
  have ne: "editor_selectors \<noteq> []"
    by (simp add: editor_selectors_def)
  from main have "snd (locate_editor slow_page) =
     Inl (TimeoutError (''Timeout exceeded: '' @ editor_selectors ! 3))"
    by (simp only: locate_editor_def slow_page_timeouts l map_is_Nil_conv ne if_False)
  with ps show ?thesis by (simp add: list_all_iff)
qed

text \<open>C7 as worded asks for an error with the candidate list, the last timeout error
  and the document text. The error is a \<open>TimeoutError\<close> with a message only: on two
  pages that differ in their text it is the same.\<close>

theorem editor_error_is_bare_timeout_counterexample:
  "snd (locate_editor empty_page) = Inl (TimeoutError ''Comment editor not found'') \<and>
   snd (locate_editor (empty_page\<lparr>page_text := ''<html><body>other</body></html>''\<rparr>))
     = Inl (TimeoutError ''Comment editor not found'') \<and>
   snd (locate_editor slow_page)
     = Inl (TimeoutError (''Timeout exceeded: '' @ editor_selectors ! 3))"
proof -
  have "snd (locate_editor slow_page)
     = Inl (TimeoutError (''Timeout exceeded: '' @ editor_selectors ! 3))"
    by (simp add: locate_editor_def editor_selectors_def slow_page_def after_def)
  then show ?thesis
    by (simp add: locate_editor_def empty_page_editor editor_ignores_page_text)
qed

section \<open>Properties of the session wrapper and the tools\<close>

text \<open>
  Claim C10: with an empty \<open>image_paths\<close>, \<open>publish_image\<close> raises the \<open>ValueError\<close>
  and makes no call at all: no browser, context or page is acquired, the handler does
  not run, nothing is written.
\<close>

theorem publish_image_rejects_empty_paths:
  "publish_image env defaults title content [] tags profile cookies_path chrome_bin debug_dir trace
     = ([], Inl (ValueError ''image_paths must contain at least one file''))"
  by (simp add: publish_image_def raises_def)

text \<open>C10 at a concrete call with a debug directory and tracing asked for.\<close>

theorem publish_image_rejects_empty_paths_witness:
  "fst (publish_image quiet_env no_defaults ''title'' ''text'' [] None None None None
          (Some ''debug'') (Some True)) = [] \<and>
   snd (publish_image quiet_env no_defaults ''title'' ''text'' [] None None None None
          (Some ''debug'') (Some True))
     = Inl (ValueError ''image_paths must contain at least one file'')"
  using publish_image_rejects_empty_paths[of quiet_env no_defaults "''title''" "''text''" None
      None None None "Some ''debug''" "Some True"]
  by simp

lemma fst_and_then:
  "fst (and_then m f) = fst m @ (case snd m of Inl e \<Rightarrow> [] | Inr v \<Rightarrow> fst (f v))"
  by (simp add: and_then_def split: sum.splits)

lemma snd_and_then:
  "snd (and_then m f) = (case snd m of Inl e \<Rightarrow> Inl e | Inr v \<Rightarrow> snd (f v))"
  by (simp add: and_then_def split: sum.splits)

lemma fst_try_finally: "fst (try_finally body cleanup) = fst body @ fst cleanup"
  by (simp add: try_finally_def)

lemma snd_try_finally:
  "snd (try_finally body cleanup) = (case snd cleanup of Inl e \<Rightarrow> Inl e | Inr u \<Rightarrow> snd body)"
  by (simp add: try_finally_def)

lemma with_manager_entered:
  "with_manager (call ev None) (call ev' out) body =
     (ev # fst body @ [ev'], case out of Some e \<Rightarrow> Inl e | None \<Rightarrow> snd body)"
  by (simp add: with_manager_def and_then_def call_def try_finally_def split: option.splits)

lemma with_manager_refused:
  "with_manager (call ev (Some e)) exit body = ([ev], Inl e)"
  by (simp add: with_manager_def and_then_def call_def)

lemma run_with_page_sync_body:
  "run_with_page_sync env profile cookies_path chrome_bin debug_dir trace handler =
     and_then ([], chrome_executable env chrome_bin) (\<lambda>chrome_exe.
        pw env (launch env chrome_exe
          (new_context env (get_cookies_path env cookies_path profile)
             (session_body env debug_dir trace
                (handler (get_cookies_path env cookies_path profile))))))"
  by (simp add: run_with_page_sync_def session_body_def Let_def)

lemma run_acquired:
  assumes "chrome_executable env chrome_bin = Inr exe" "pw_enter env = None"
    "launch_enter env = None" "new_context_enter env = None"
  shows "run_with_page_sync env profile cookies_path chrome_bin debug_dir trace handler =
     ([EnterPlaywright, EnterBrowser exe, EnterContext (get_cookies_path env cookies_path profile)]
        @ fst (session_body env debug_dir trace
                 (handler (get_cookies_path env cookies_path profile)))
        @ [ExitContext, ExitBrowser, ExitPlaywright],
      case pw_exit env of Some e \<Rightarrow> Inl e | None \<Rightarrow>
        (case launch_exit env of Some e \<Rightarrow> Inl e | None \<Rightarrow>
          (case new_context_exit env of Some e \<Rightarrow> Inl e | None \<Rightarrow>
             snd (session_body env debug_dir trace
                    (handler (get_cookies_path env cookies_path profile))))))"
  using assms
  by (simp add: run_with_page_sync_body and_then_def pw_def launch_def new_context_def
      with_manager_entered split: option.splits)


lemma run_unreached:
  assumes "\<not> acquires env chrome_bin"
  shows "set (fst (run_with_page_sync env profile cookies_path chrome_bin debug_dir trace handler))
           \<subseteq> {EnterPlaywright, ExitBrowser, ExitPlaywright} \<union> range EnterBrowser \<union> range EnterContext"
proof (cases "chrome_executable env chrome_bin")
  case (Inl e)
  then show ?thesis by (simp add: run_with_page_sync_body and_then_def)
next
  case (Inr exe)
  show ?thesis
  proof (cases "pw_enter env")
    case (Some e)
    with Inr show ?thesis
      by (simp add: run_with_page_sync_body and_then_def pw_def with_manager_refused)
  next
    case None
    show ?thesis
    proof (cases "launch_enter env")
      case (Some e)
      with Inr None show ?thesis
        by (simp add: run_with_page_sync_body and_then_def pw_def launch_def
            with_manager_refused with_manager_entered)
    next
      case ln: None
      with assms Inr None obtain e where "new_context_enter env = Some e"
        by (auto simp: acquires_def)
      with Inr None ln show ?thesis
        by (simp add: run_with_page_sync_body and_then_def pw_def launch_def new_context_def
            with_manager_refused with_manager_entered)
    qed
  qed
qed

text \<open>
  Claim C2: once the browser and the context are acquired, the calls of every invocation
  end with the release of the context, then of the browser, then of the driver, the
  reverse of the order of acquisition. This is so whatever the handler, the diagnostics
  and the releases themselves do: each of them may raise. When entering the context
  raises, the browser is released all the same.
\<close>

theorem releases_in_reverse_order:
  "(chrome_executable env chrome_bin = Inr exe \<and> pw_enter env = None \<and> launch_enter env = None \<and>
      new_context_enter env = None \<longrightarrow>
      (\<exists>calls. fst (run_with_page_sync env profile cookies_path chrome_bin debug_dir trace handler)
         = [EnterPlaywright, EnterBrowser exe,
            EnterContext (get_cookies_path env cookies_path profile)]
           @ calls @ [ExitContext, ExitBrowser, ExitPlaywright])) \<and>
   (chrome_executable env chrome_bin = Inr exe \<and> pw_enter env = None \<and> launch_enter env = None \<and>
      new_context_enter env = Some e \<longrightarrow>
      fst (run_with_page_sync env profile cookies_path chrome_bin debug_dir trace handler)
         = [EnterPlaywright, EnterBrowser exe,
            EnterContext (get_cookies_path env cookies_path profile),
            ExitBrowser, ExitPlaywright])"
proof (intro conjI impI)
  assume "chrome_executable env chrome_bin = Inr exe \<and> pw_enter env = None \<and>
      launch_enter env = None \<and> new_context_enter env = None"
  then show "\<exists>calls. fst (run_with_page_sync env profile cookies_path chrome_bin debug_dir trace handler)
         = [EnterPlaywright, EnterBrowser exe,
            EnterContext (get_cookies_path env cookies_path profile)]
           @ calls @ [ExitContext, ExitBrowser, ExitPlaywright]"
    by (auto simp: run_acquired)
next
  assume "chrome_executable env chrome_bin = Inr exe \<and> pw_enter env = None \<and>
      launch_enter env = None \<and> new_context_enter env = Some e"
  then show "fst (run_with_page_sync env profile cookies_path chrome_bin debug_dir trace handler)
         = [EnterPlaywright, EnterBrowser exe,
            EnterContext (get_cookies_path env cookies_path profile),
            ExitBrowser, ExitPlaywright]"
    by (simp add: run_with_page_sync_body and_then_def pw_def launch_def new_context_def
        with_manager_refused with_manager_entered)
qed


lemma saves_append: "saves (xs @ ys) = saves xs @ saves ys"
proof (induction xs)
  case Nil
  then show ?case by simp
next
  case (Cons ev xs)
  then show ?case by (cases ev) simp_all
qed

lemma saves_none:
  "\<forall>ev \<in> set evs. \<forall>path state. ev \<noteq> SaveStorageState path state \<Longrightarrow> saves evs = []"
proof (induction evs)
  case Nil
  then show ?case by simp
next
  case (Cons ev evs)
  then show ?case by (cases ev) simp_all
qed

lemma teardown_calls:
  "set (fst (teardown env debug_dir trace)) \<subseteq>
     range Mkdir \<union> {PageContent} \<union> {ev. \<exists>d f t. ev = WriteText d f t} \<union>
     {ev. \<exists>d f. ev = Screenshot d f} \<union> {ev. \<exists>d f. ev = TracingStop d f}"
  by (auto simp: teardown_def fst_and_then snd_and_then returns_def call_def call_value_def
      take_screenshot_def after_def run_when_def split: option.splits sum.splits if_splits)

lemma saves_teardown: "saves (fst (teardown env debug_dir trace)) = []"
  using teardown_calls[of env debug_dir trace] by (intro saves_none) auto

lemma session_body_opened:
  assumes "page_opens env"
  shows "session_body env debug_dir trace handled =
     ((if trace \<and> debug_dir \<noteq> None then [TracingStart] else []) @ [NewPage] @
      (if debug_dir \<noteq> None then [OnConsole] else []) @
      fst handled @ fst (teardown env debug_dir trace),
      case snd (teardown env debug_dir trace) of Inl e \<Rightarrow> Inl e | Inr u \<Rightarrow> snd handled)"
  using assms
  by (simp add: session_body_def page_opens_def and_then_def run_when_def call_def returns_def
      try_finally_def)

lemma session_body_saves:
  "saves (fst (session_body env debug_dir trace handled)) = [] \<or>
   saves (fst (session_body env debug_dir trace handled)) = saves (fst handled)"
  by (simp add: session_body_def fst_and_then snd_and_then run_when_def call_def returns_def
      fst_try_finally saves_append saves_teardown split: option.splits sum.splits)

lemma run_saves:
  "saves (fst (run_with_page_sync env profile cookies_path chrome_bin debug_dir trace handler)) = [] \<or>
   saves (fst (run_with_page_sync env profile cookies_path chrome_bin debug_dir trace handler))
     = saves (fst (handler (get_cookies_path env cookies_path profile)))"
proof (cases "acquires env chrome_bin")
  case True
  then obtain exe where "chrome_executable env chrome_bin = Inr exe" "pw_enter env = None"
    "launch_enter env = None" "new_context_enter env = None"
    by (auto simp: acquires_def split: sum.splits)
  note run = run_acquired[OF this]
  from session_body_saves[of env debug_dir trace
      "handler (get_cookies_path env cookies_path profile)"]
  show ?thesis by (auto simp: run saves_append)
next
  case False
  from run_unreached[OF this, of profile cookies_path debug_dir trace handler]
  have "saves (fst (run_with_page_sync env profile cookies_path chrome_bin debug_dir trace handler)) = []"
    by (intro saves_none) blast
  then show ?thesis by simp
qed

lemma run_saves_reached:
  assumes "acquires env chrome_bin" "page_opens env"
  shows "saves (fst (run_with_page_sync env profile cookies_path chrome_bin debug_dir trace handler))
     = saves (fst (handler (get_cookies_path env cookies_path profile)))"
proof -
  from assms(1) obtain exe where "chrome_executable env chrome_bin = Inr exe" "pw_enter env = None"
    "launch_enter env = None" "new_context_enter env = None"
    by (auto simp: acquires_def split: sum.splits)
  note run = run_acquired[OF this]
  show ?thesis
    by (simp add: run session_body_opened[OF assms(2)] saves_append saves_teardown)
qed

lemma run_result_reached:
  assumes "acquires env chrome_bin" "page_opens env" "releases_return env"
  shows "snd (run_with_page_sync env profile cookies_path chrome_bin debug_dir trace handler)
     = (case snd (teardown env debug_dir trace) of
          Inl e \<Rightarrow> Inl e
        | Inr u \<Rightarrow> snd (handler (get_cookies_path env cookies_path profile)))"
proof -
  from assms(1) obtain exe where "chrome_executable env chrome_bin = Inr exe" "pw_enter env = None"
    "launch_enter env = None" "new_context_enter env = None"
    by (auto simp: acquires_def split: sum.splits)
  note run = run_acquired[OF this]
  from assms(3) show ?thesis
    by (simp add: run session_body_opened[OF assms(2)] releases_return_def)
qed

lemma run_calls_reached:
  assumes "acquires env chrome_bin" "page_opens env"
  shows "set (fst (teardown env debug_dir trace))
     \<subseteq> set (fst (run_with_page_sync env profile cookies_path chrome_bin debug_dir trace handler))"
proof -
  from assms(1) obtain exe where "chrome_executable env chrome_bin = Inr exe" "pw_enter env = None"
    "launch_enter env = None" "new_context_enter env = None"
    by (auto simp: acquires_def split: sum.splits)
  note run = run_acquired[OF this]
  show ?thesis
    by (auto simp: run session_body_opened[OF assms(2)])
qed

lemma teardown_returns:
  assumes "unguarded_steps_return env"
  shows "snd (teardown env debug_dir trace) = Inr ()"
  using assms
  by (auto simp: teardown_def unguarded_steps_return_def snd_and_then returns_def call_def
      call_value_def take_screenshot_def after_def run_when_def
      split: option.splits sum.splits)

lemma teardown_writes:
  assumes "unguarded_steps_return env"
  shows "WriteText dir ''dom.html'' (dom_text env) \<in> set (fst (teardown env (Some dir) trace))"
    and "WriteText dir ''console.log'' (join_lines (console_logs env))
           \<in> set (fst (teardown env (Some dir) trace))"
    and "screenshot env = Some exc \<Longrightarrow>
         WriteText dir ''screenshot-error.log'' (message exc)
           \<in> set (fst (teardown env (Some dir) trace))"
  using assms
  by (auto simp: teardown_def unguarded_steps_return_def fst_and_then snd_and_then returns_def
      call_def call_value_def take_screenshot_def after_def run_when_def dom_text_def
      split: option.splits sum.splits)


text \<open>
  Claim C1, as the code has it. When the handler raises and the unguarded steps of the
  teardown and the releases return, the invocation fails with the handler's error,
  whether or not the screenshot raises, and \<open>dom.html\<close>, \<open>console.log\<close> and, after a
  failed screenshot, \<open>screenshot-error.log\<close> are written to the debug directory.
\<close>

theorem handler_error_survives_screenshot_failure:
  "(acquires env chrome_bin \<and> page_opens env \<and> unguarded_steps_return env \<and>
      releases_return env \<and>
      snd (handler (get_cookies_path env cookies_path profile)) = Inl e
    \<longrightarrow>
      snd (run_with_page_sync env profile cookies_path chrome_bin debug_dir trace handler) = Inl e \<and>
      (\<forall>dir. debug_dir = Some dir \<longrightarrow>
         WriteText dir ''dom.html'' (dom_text env)
           \<in> set (fst (run_with_page_sync env profile cookies_path chrome_bin debug_dir trace handler)) \<and>
         WriteText dir ''console.log'' (join_lines (console_logs env))
           \<in> set (fst (run_with_page_sync env profile cookies_path chrome_bin debug_dir trace handler)) \<and>
         (\<forall>exc. screenshot env = Some exc \<longrightarrow>
            WriteText dir ''screenshot-error.log'' (message exc)
              \<in> set (fst (run_with_page_sync env profile cookies_path chrome_bin debug_dir trace
                             handler)))))"
proof (intro conjI impI allI)
  assume a: "acquires env chrome_bin \<and> page_opens env \<and> unguarded_steps_return env \<and>
      releases_return env \<and>
      snd (handler (get_cookies_path env cookies_path profile)) = Inl e"
  then show "snd (run_with_page_sync env profile cookies_path chrome_bin debug_dir trace handler)
      = Inl e"
    by (simp add: run_result_reached teardown_returns)
  fix dir assume d: "debug_dir = Some dir"
  from a have sub: "set (fst (teardown env debug_dir trace))
     \<subseteq> set (fst (run_with_page_sync env profile cookies_path chrome_bin debug_dir trace handler))"
    by (simp add: run_calls_reached)
  from a have u: "unguarded_steps_return env" by simp
  from teardown_writes(1)[OF u, of dir trace] sub d
  show "WriteText dir ''dom.html'' (dom_text env)
           \<in> set (fst (run_with_page_sync env profile cookies_path chrome_bin debug_dir trace handler))"
    by blast
  from teardown_writes(2)[OF u, of dir trace] sub d
  show "WriteText dir ''console.log'' (join_lines (console_logs env))
           \<in> set (fst (run_with_page_sync env profile cookies_path chrome_bin debug_dir trace handler))"
    by blast
  fix exc assume "screenshot env = Some exc"
  from teardown_writes(3)[OF u this, of dir trace] sub d
  show "WriteText dir ''screenshot-error.log'' (message exc)
              \<in> set (fst (run_with_page_sync env profile cookies_path chrome_bin debug_dir trace
                             handler))"
    by blast
qed

lemma crashed_env_facts:
  "acquires (quiet_env\<lparr>screenshot := Some (OtherError ''Page crashed'')\<rparr>) None"
  "page_opens (quiet_env\<lparr>screenshot := Some (OtherError ''Page crashed'')\<rparr>)"
  "unguarded_steps_return (quiet_env\<lparr>screenshot := Some (OtherError ''Page crashed'')\<rparr>)"
  "releases_return (quiet_env\<lparr>screenshot := Some (OtherError ''Page crashed'')\<rparr>)"
  "screenshot (quiet_env\<lparr>screenshot := Some (OtherError ''Page crashed'')\<rparr>)
     = Some (OtherError ''Page crashed'')"
  "dom_text (quiet_env\<lparr>screenshot := Some (OtherError ''Page crashed'')\<rparr>) = ''<html></html>''"
  "join_lines (console_logs (quiet_env\<lparr>screenshot := Some (OtherError ''Page crashed'')\<rparr>))
     = ''[log] ready''"
  by (simp_all add: quiet_env_def acquires_def page_opens_def unguarded_steps_return_def
      releases_return_def dom_text_def console_logs_def)

text \<open>C1 as amended, on an invocation whose handler raises and whose screenshot
  raises.\<close>

theorem handler_error_survives_screenshot_failure_witness:
  "snd (run_with_page_sync (quiet_env\<lparr>screenshot := Some (OtherError ''Page crashed'')\<rparr>)
          None None None (Some ''debug'') False failing_handler)
     = Inl (RuntimeError ''handler failed'') \<and>
   {WriteText ''debug'' ''dom.html'' ''<html></html>'',
    WriteText ''debug'' ''screenshot-error.log'' ''Page crashed'',
    WriteText ''debug'' ''console.log'' ''[log] ready''}
     \<subseteq> set (fst (run_with_page_sync (quiet_env\<lparr>screenshot := Some (OtherError ''Page crashed'')\<rparr>)
                    None None None (Some ''debug'') False failing_handler))"
proof -
  have h: "\<And>cf. snd (failing_handler cf) = Inl (RuntimeError ''handler failed'')"
    by (simp add: failing_handler_def raises_def)
  note main = handler_error_survives_screenshot_failure[
      where env = "quiet_env\<lparr>screenshot := Some (OtherError ''Page crashed'')\<rparr>"
        and chrome_bin = None and handler = failing_handler and cookies_path = None
        and profile = None and e = "RuntimeError ''handler failed''"
        and debug_dir = "Some ''debug''" and trace = False,
      THEN mp]
  have "acquires (quiet_env\<lparr>screenshot := Some (OtherError ''Page crashed'')\<rparr>) None \<and>
      page_opens (quiet_env\<lparr>screenshot := Some (OtherError ''Page crashed'')\<rparr>) \<and>
      unguarded_steps_return (quiet_env\<lparr>screenshot := Some (OtherError ''Page crashed'')\<rparr>) \<and>
      releases_return (quiet_env\<lparr>screenshot := Some (OtherError ''Page crashed'')\<rparr>) \<and>
      snd (failing_handler (get_cookies_path
             (quiet_env\<lparr>screenshot := Some (OtherError ''Page crashed'')\<rparr>) None None))
        = Inl (RuntimeError ''handler failed'')"
    using crashed_env_facts h by (intro conjI)
  from main[OF this] crashed_env_facts(5,6,7) show ?thesis
    by simp
qed

text \<open>C1 as worded has no teardown failure replace the handler's error. Here the handler
  raises a \<open>RuntimeError\<close>, the write of \<open>dom.html\<close> raises, and the invocation fails
  with the error of the write.\<close>

theorem teardown_error_replaces_handler_error_counterexample:
  "snd (failing_handler ''profiles/default.json'') = Inl (RuntimeError ''handler failed'') \<and>
   snd (run_with_page_sync (quiet_env\<lparr>write_dom := Some (OtherError ''No space left on device'')\<rparr>)
          None None None (Some ''debug'') False failing_handler)
     = Inl (OtherError ''No space left on device'')"
  by (simp add: run_with_page_sync_def quiet_env_def failing_handler_def raises_def returns_def
      and_then_def pw_def launch_def new_context_def with_manager_def try_finally_def call_def
      call_value_def run_when_def teardown_def get_cookies_path_def Let_def)

text \<open>C2 on an invocation whose handler raises, whose write of \<open>dom.html\<close> raises and
  whose context release raises: the three releases are still the last three calls.\<close>

theorem releases_in_reverse_order_witness:
  "fst (run_with_page_sync
         (quiet_env\<lparr>write_dom := Some (OtherError ''No space left on device''),
                    new_context_exit := Some (OtherError ''Target closed'')\<rparr>)
         None None None (Some ''debug'') False failing_handler)
     = [EnterPlaywright, EnterBrowser None, EnterContext ''profiles/default.json'',
        NewPage, OnConsole, Mkdir ''debug'', PageContent,
        WriteText ''debug'' ''dom.html'' ''<html></html>'',
        ExitContext, ExitBrowser, ExitPlaywright]"
proof -
  let ?env = "quiet_env\<lparr>write_dom := Some (OtherError ''No space left on device''),
                    new_context_exit := Some (OtherError ''Target closed'')\<rparr>"
  have acq: "chrome_executable ?env None = Inr None \<and> pw_enter ?env = None \<and>
      launch_enter ?env = None \<and> new_context_enter ?env = None"
    by (simp add: quiet_env_def)
  from releases_in_reverse_order[where env = ?env and chrome_bin = None and exe = None
      and profile = None and cookies_path = None and debug_dir = "Some ''debug''"
      and trace = False and handler = failing_handler, THEN conjunct1, THEN mp, OF acq]
  obtain calls where c: "fst (run_with_page_sync ?env None None None (Some ''debug'') False
        failing_handler)
      = [EnterPlaywright, EnterBrowser None, EnterContext (get_cookies_path ?env None None)]
        @ calls @ [ExitContext, ExitBrowser, ExitPlaywright]"
    by blast
  have "fst (run_with_page_sync ?env None None None (Some ''debug'') False failing_handler)
     = [EnterPlaywright, EnterBrowser None, EnterContext ''profiles/default.json'',
        NewPage, OnConsole, Mkdir ''debug'', PageContent,
        WriteText ''debug'' ''dom.html'' ''<html></html>'',
        ExitContext, ExitBrowser, ExitPlaywright]"
    by (simp add: run_with_page_sync_def quiet_env_def failing_handler_def raises_def returns_def
      and_then_def pw_def launch_def new_context_def with_manager_def try_finally_def call_def
      call_value_def run_when_def teardown_def get_cookies_path_def Let_def)
  with c show ?thesis by simp
qed

lemma wait_for_login_result:
  "snd (wait_for_login indicator k n) = Inr (\<exists>j < n. indicator (k + j))"
proof (induction n arbitrary: k)
  case 0
  then show ?case by simp
next
  case (Suc n)
  show ?case
  proof (cases "indicator k")
    case True
    then have "\<exists>j < Suc n. indicator (k + j)" by (intro exI[of _ 0]) simp
    with True show ?thesis by simp
  next
    case False
    have "(\<exists>j < Suc n. indicator (k + j)) \<longleftrightarrow> (\<exists>j < n. indicator (Suc k + j))"
    proof
      assume "\<exists>j < Suc n. indicator (k + j)"
      then obtain j where j: "j < Suc n" "indicator (k + j)" by blast
      with False have "j \<noteq> 0" by (cases j) auto
      then obtain i where "j = Suc i" by (cases j) auto
      with j show "\<exists>j < n. indicator (Suc k + j)" by (intro exI[of _ i]) simp
    next
      assume "\<exists>j < n. indicator (Suc k + j)"
      then obtain i where "i < n" "indicator (Suc k + i)" by blast
      then show "\<exists>j < Suc n. indicator (k + j)" by (intro exI[of _ "Suc i"]) simp
    qed
    with False Suc[of "Suc k"] show ?thesis by (simp add: snd_after)
  qed
qed

lemma wait_for_login_saves: "saves (fst (wait_for_login indicator k n)) = []"
  by (induction n arbitrary: k) (simp_all add: fst_after)

lemma login_handler_seen:
  assumes "login_seen env timeout poll_interval"
  shows "saves (fst (login_handler env timeout poll_interval cookies_file))
           = (case storage_state env of Inr state \<Rightarrow> [(cookies_file, state)] | Inl e \<Rightarrow> [])"
  using assms wait_for_login_result[of "login_indicator env" 0
      "checks_before_deadline env timeout poll_interval"]
  by (simp add: login_handler_def login_seen_def fst_and_then snd_and_then saves_append
      wait_for_login_saves call_value_def call_def returns_def split: sum.splits)

lemma login_handler_timed_out:
  assumes "\<not> login_seen env timeout poll_interval"
  shows "saves (fst (login_handler env timeout poll_interval cookies_file)) = []"
    and "snd (login_handler env timeout poll_interval cookies_file)
           = Inl (RuntimeError ''Login timed out.'')"
  using assms wait_for_login_result[of "login_indicator env" 0
      "checks_before_deadline env timeout poll_interval"]
  by (simp_all add: login_handler_def login_seen_def fst_and_then snd_and_then saves_append
      wait_for_login_saves raises_def)

text \<open>
  Claim C3, as the code has it. In a run of \<open>wait_for_login_complete\<close> that reaches its
  handler, when the login indicator reports a login at a check before the deadline and
  the session state can be read, the state is saved exactly once, to the resolved
  cookies path. When the
  deadline elapses without a login, no run saves anything, the handler raises
  \<open>RuntimeError('Login timed out.')\<close>, and that is the error of the operation when the
  teardown and the releases return.
\<close>

theorem login_saves_once_or_times_out:
  "(login_seen env timeout poll_interval \<and>
      acquires env (effective_str chrome_bin (default_chrome_bin defaults)) \<and>
      page_opens env \<and> storage_state env = Inr state
    \<longrightarrow>
      saves (fst (wait_for_login_complete env defaults timeout poll_interval profile cookies_path
                    chrome_bin debug_dir trace))
        = [(get_cookies_path env (effective_str cookies_path (default_cookies defaults))
              (effective_str profile (default_profile defaults)), state)]) \<and>
   (\<not> login_seen env timeout poll_interval
    \<longrightarrow>
      saves (fst (wait_for_login_complete env defaults timeout poll_interval profile cookies_path
                    chrome_bin debug_dir trace)) = [] \<and>
      snd (login_handler env timeout poll_interval cookies_file)
        = Inl (RuntimeError ''Login timed out.'') \<and>
      (acquires env (effective_str chrome_bin (default_chrome_bin defaults)) \<and>
         page_opens env \<and> unguarded_steps_return env \<and> releases_return env
       \<longrightarrow>
         snd (wait_for_login_complete env defaults timeout poll_interval profile cookies_path
                chrome_bin debug_dir trace)
           = Inl (RuntimeError ''Login timed out.'')))"
proof (intro conjI impI)
  assume a: "login_seen env timeout poll_interval \<and>
      acquires env (effective_str chrome_bin (default_chrome_bin defaults)) \<and>
      page_opens env \<and> storage_state env = Inr state"
  then show "saves (fst (wait_for_login_complete env defaults timeout poll_interval profile
                    cookies_path chrome_bin debug_dir trace))
        = [(get_cookies_path env (effective_str cookies_path (default_cookies defaults))
              (effective_str profile (default_profile defaults)), state)]"
    by (simp add: wait_for_login_complete_def resolve_invocation_args_def run_saves_reached
        login_handler_seen)
next
  assume n: "\<not> login_seen env timeout poll_interval"
  have "saves (fst (run_with_page_sync env p c b d t (login_handler env timeout poll_interval)))
          = []" for p c b d t
    using run_saves[of env p c b d t "login_handler env timeout poll_interval"]
      login_handler_timed_out(1)[OF n] by auto
  then show "saves (fst (wait_for_login_complete env defaults timeout poll_interval profile
                    cookies_path chrome_bin debug_dir trace)) = []"
    by (simp add: wait_for_login_complete_def resolve_invocation_args_def)
  from login_handler_timed_out(2)[OF n]
  show "snd (login_handler env timeout poll_interval cookies_file)
        = Inl (RuntimeError ''Login timed out.'')" .
  assume "acquires env (effective_str chrome_bin (default_chrome_bin defaults)) \<and>
         page_opens env \<and> unguarded_steps_return env \<and> releases_return env"
  then show "snd (wait_for_login_complete env defaults timeout poll_interval profile cookies_path
                chrome_bin debug_dir trace)
           = Inl (RuntimeError ''Login timed out.'')"
    by (simp add: wait_for_login_complete_def resolve_invocation_args_def run_result_reached
        teardown_returns login_handler_timed_out(2)[OF n])
qed

lemma quiet_env_facts:
  "acquires quiet_env None" "page_opens quiet_env" "unguarded_steps_return quiet_env"
  "releases_return quiet_env" "storage_state quiet_env = Inr ''{cookies}''"
  by (simp_all add: quiet_env_def acquires_def page_opens_def unguarded_steps_return_def
      releases_return_def)

lemma quiet_env_login_seen: "login_seen quiet_env 240 500"
  unfolding login_seen_def by (intro exI[of _ 2]) (simp add: quiet_env_def)

lemma logged_out_facts:
  "acquires (quiet_env\<lparr>login_indicator := (\<lambda>k. False)\<rparr>) None"
  "page_opens (quiet_env\<lparr>login_indicator := (\<lambda>k. False)\<rparr>)"
  "unguarded_steps_return (quiet_env\<lparr>login_indicator := (\<lambda>k. False)\<rparr>)"
  "releases_return (quiet_env\<lparr>login_indicator := (\<lambda>k. False)\<rparr>)"
  "\<not> login_seen (quiet_env\<lparr>login_indicator := (\<lambda>k. False)\<rparr>) 240 500"
  by (simp_all add: quiet_env_def acquires_def page_opens_def unguarded_steps_return_def
      releases_return_def login_seen_def)

text \<open>C3 for the profile \<open>alice\<close>: one save at the profile's path when the login is seen
  at the third check, none and the timeout error when it is never seen.\<close>

theorem login_saves_once_or_times_out_witness:
  "login_seen quiet_env 240 500 \<and>
   saves (fst (wait_for_login_complete quiet_env no_defaults 240 500 (Some ''alice'') None None
                 None None))
     = [(''profiles/alice.json'', ''{cookies}'')] \<and>
   \<not> login_seen (quiet_env\<lparr>login_indicator := (\<lambda>k. False)\<rparr>) 240 500 \<and>
   saves (fst (wait_for_login_complete (quiet_env\<lparr>login_indicator := (\<lambda>k. False)\<rparr>)
                 no_defaults 240 500 (Some ''alice'') None None None None)) = [] \<and>
   snd (wait_for_login_complete (quiet_env\<lparr>login_indicator := (\<lambda>k. False)\<rparr>)
          no_defaults 240 500 (Some ''alice'') None None None None)
     = Inl (RuntimeError ''Login timed out.'')"
proof -
  have eff: "effective_str None (default_chrome_bin no_defaults) = None"
    "effective_str None (default_cookies no_defaults) = None"
    "effective_str (Some ''alice'') (default_profile no_defaults) = Some ''alice''"
    by (simp_all add: effective_str_def no_defaults_def)
  have path: "get_cookies_path quiet_env None (Some ''alice'') = ''profiles/alice.json''"
    by (simp add: get_cookies_path_def quiet_env_def)
  have pre1: "login_seen quiet_env 240 500 \<and>
      acquires quiet_env (effective_str None (default_chrome_bin no_defaults)) \<and>
      page_opens quiet_env \<and> storage_state quiet_env = Inr ''{cookies}''"
    using quiet_env_facts quiet_env_login_seen by (simp add: eff)
  from login_saves_once_or_times_out[where env = quiet_env and timeout = 240
      and poll_interval = 500 and chrome_bin = None and defaults = no_defaults
      and state = "''{cookies}''" and profile = "Some ''alice''" and cookies_path = None
      and debug_dir = None and trace = None, THEN conjunct1, THEN mp, OF pre1]
  have s1: "saves (fst (wait_for_login_complete quiet_env no_defaults 240 500 (Some ''alice'')
                 None None None None))
     = [(''profiles/alice.json'', ''{cookies}'')]"
    by (simp add: eff path)
  let ?out = "quiet_env\<lparr>login_indicator := (\<lambda>k. False)\<rparr>"
  note t = login_saves_once_or_times_out[where env = ?out and timeout = 240
      and poll_interval = 500 and chrome_bin = None and defaults = no_defaults
      and profile = "Some ''alice''" and cookies_path = None
      and debug_dir = None and trace = None, THEN conjunct2, THEN mp, OF logged_out_facts(5)]
  from t have s2: "saves (fst (wait_for_login_complete ?out no_defaults 240 500 (Some ''alice'')
      None None None None)) = []"
    by (rule conjunct1)
  have pre2: "acquires ?out (effective_str None (default_chrome_bin no_defaults)) \<and>
         page_opens ?out \<and> unguarded_steps_return ?out \<and> releases_return ?out"
    using logged_out_facts by (simp add: eff)
  from t[THEN conjunct2, THEN conjunct2, THEN mp, OF pre2]
  have s3: "snd (wait_for_login_complete ?out no_defaults 240 500 (Some ''alice'')
      None None None None) = Inl (RuntimeError ''Login timed out.'')" .
  from quiet_env_login_seen s1 logged_out_facts(5) s2 s3 show ?thesis by (intro conjI)
qed

lemma unreadable_state_facts:
  "acquires unreadable_state_env None" "page_opens unreadable_state_env"
  "storage_state unreadable_state_env = Inl (OtherError ''Target closed'')"
  by (simp_all add: unreadable_state_env_def quiet_env_def acquires_def page_opens_def)

lemma unreadable_state_login_seen: "login_seen unreadable_state_env 240 500"
  unfolding login_seen_def
  by (intro exI[of _ 2]) (simp add: unreadable_state_env_def quiet_env_def)

lemma full_disk_facts:
  "acquires full_disk_env None" "page_opens full_disk_env" "releases_return full_disk_env"
  "\<not> login_seen full_disk_env 240 500"
  "resolve_path full_disk_env ''debug'' = ''debug''"
  by (simp_all add: full_disk_env_def quiet_env_def acquires_def page_opens_def
      releases_return_def login_seen_def never_logged_in_def)

lemma full_disk_teardown:
  "snd (teardown full_disk_env (Some ''debug'') False)
     = Inl (OtherError ''No space left on device'')"
  by (simp add: teardown_def full_disk_env_def quiet_env_def and_then_def call_def
      call_value_def)

text \<open>C3 as worded has every seen login saved and every timeout end in the timeout
  error. When \<open>storage_state()\<close> raises after a seen login, nothing is saved and the
  operation ends in that exception; when the login never comes and the write of
  \<open>dom.html\<close> raises in the teardown, the operation ends in the error of the write.\<close>

theorem login_outcome_needs_more_counterexample:
  "login_seen unreadable_state_env 240 500 \<and>
   saves (fst (wait_for_login_complete unreadable_state_env no_defaults 240 500 (Some ''alice'')
                 None None None None)) = [] \<and>
   snd (wait_for_login_complete unreadable_state_env no_defaults 240 500 (Some ''alice'')
          None None None None) = Inl (OtherError ''Target closed'') \<and>
   \<not> login_seen full_disk_env 240 500 \<and>
   snd (wait_for_login_complete full_disk_env no_defaults 240 500 (Some ''alice'')
          None None (Some ''debug'') None)
     = Inl (OtherError ''No space left on device'')"
proof -
  have eff: "effective_str None (default_chrome_bin no_defaults) = None"
    "effective_str None (default_cookies no_defaults) = None"
    "effective_str (Some ''alice'') (default_profile no_defaults) = Some ''alice''"
    "resolve_bool None (default_trace no_defaults) = False"
    "default_debug_dir no_defaults = None"
    by (simp_all add: effective_str_def resolve_bool_def no_defaults_def)
  have s: "saves (fst (wait_for_login_complete unreadable_state_env no_defaults 240 500
                 (Some ''alice'') None None None None)) = []"
    by (simp add: wait_for_login_complete_def resolve_invocation_args_def eff
        run_saves_reached unreadable_state_facts login_handler_seen unreadable_state_login_seen)
  have td: "snd (teardown unreadable_state_env None False) = Inr ()"
    by (simp add: teardown_def and_then_def returns_def)
  have rr: "releases_return unreadable_state_env"
    by (simp add: unreadable_state_env_def quiet_env_def releases_return_def)
  have w: "snd (wait_for_login (login_indicator unreadable_state_env) 0
             (checks_before_deadline unreadable_state_env 240 500)) = Inr True"
    using unreadable_state_login_seen
    by (simp add: wait_for_login_result login_seen_def)
  have h: "snd (login_handler unreadable_state_env 240 500 cf)
             = Inl (OtherError ''Target closed'')" for cf
    using w by (simp add: login_handler_def snd_and_then call_value_def unreadable_state_facts)
  have r1: "snd (wait_for_login_complete unreadable_state_env no_defaults 240 500
          (Some ''alice'') None None None None) = Inl (OtherError ''Target closed'')"
    by (simp add: wait_for_login_complete_def resolve_invocation_args_def eff
        run_result_reached unreadable_state_facts rr td h)
  have r2: "snd (wait_for_login_complete full_disk_env no_defaults 240 500 (Some ''alice'')
          None None (Some ''debug'') None)
     = Inl (OtherError ''No space left on device'')"
    by (simp add: wait_for_login_complete_def resolve_invocation_args_def eff
        normalize_debug_dir_def run_result_reached full_disk_facts full_disk_teardown)
  from unreadable_state_login_seen s r1 full_disk_facts(4) r2 show ?thesis
    by (intro conjI)
qed

end
